theory Spec2Isabelle
  imports Main
begin

section \<open>The identity gate: \<^verbatim>\<open>frontend/src/contexts/AuthContext.tsx\<close>\<close>

text \<open>
  The provider keeps one \<^verbatim>\<open>AuthState\<close> value (React state) and mirrors part of it in
  the browser's \<^verbatim>\<open>localStorage\<close>. The model passes both explicitly: every operation
  takes the state and the storage it reads and returns the ones it leaves behind.

  \<^verbatim>\<open>anonymousMessageCount\<close> is a JavaScript number. The counts that occur are small
  integers, where floating-point arithmetic is exact, so the field is an \<open>int\<close>; a
  count that \<^verbatim>\<open>parseInt\<close> cannot read from a damaged storage value (\<^verbatim>\<open>NaN\<close>) is outside
  the model.
\<close>

record User =
  user_id :: string
  email :: string
  created_at :: string

record AuthState =
  user :: "User option"
  isAuthenticated :: bool
  isAnonymous :: bool
  anonymousMessageCount :: int
  loading :: bool

record RegisterRequest =
  reg_email :: string
  reg_password :: string

record AuthResponse =
  access_token :: string
  token_type :: string
  resp_user :: User

text \<open>\<^verbatim>\<open>localStorage\<close>: string keys to string values.\<close>

type_synonym storage = "string \<rightharpoonup> string"

definition ANONYMOUS_MESSAGE_LIMIT :: int where
  "ANONYMOUS_MESSAGE_LIMIT = 3"

definition MESSAGE_COUNT_KEY :: string where
  "MESSAGE_COUNT_KEY = ''anonymous_message_count''"

definition SESSION_ID_KEY :: string where
  "SESSION_ID_KEY = ''eloquent_session_id''"

definition ACCESS_TOKEN_KEY :: string where
  "ACCESS_TOKEN_KEY = ''access_token''"

text \<open>The value \<^verbatim>\<open>useState\<close> is initialised with.\<close>

definition initialAuthState :: AuthState where
  "initialAuthState =
     \<lparr>user = None, isAuthenticated = False, isAnonymous = True,
      anonymousMessageCount = 0, loading = True\<rparr>"

subsection \<open>\<^verbatim>\<open>Number.prototype.toString\<close> on integers\<close>

definition digit_char :: "nat \<Rightarrow> char" where
  "digit_char d = ''0123456789'' ! d"

fun digits_of :: "nat \<Rightarrow> string" where
  "digits_of n =
     (if n < 10 then [digit_char n] else digits_of (n div 10) @ [digit_char (n mod 10)])"

declare digits_of.simps [simp del]

definition toString :: "int \<Rightarrow> string" where
  "toString i = (if i < 0 then CHR ''-'' # digits_of (nat (- i)) else digits_of (nat i))"

subsection \<open>\<^verbatim>\<open>canSendMessage\<close> and \<^verbatim>\<open>incrementMessageCount\<close>\<close>

text \<open>
  \<^verbatim>\<open>
  const canSendMessage = (): boolean => {
    if (state.isAuthenticated) { return true; }
    return state.anonymousMessageCount < ANONYMOUS_MESSAGE_LIMIT;
  };
  \<close>
\<close>

definition canSendMessage :: "AuthState \<Rightarrow> bool" where
  "canSendMessage st =
     (if isAuthenticated st then True
      else anonymousMessageCount st < ANONYMOUS_MESSAGE_LIMIT)"

text \<open>
  \<^verbatim>\<open>
  const incrementMessageCount = () => {
    if (state.isAnonymous) {
      const newCount = state.anonymousMessageCount + 1;
      setState((prev) => ({ ...prev, anonymousMessageCount: newCount }));
      localStorage.setItem(MESSAGE_COUNT_KEY, newCount.toString());
    }
  };
  \<close>
\<close>

definition incrementMessageCount :: "AuthState \<times> storage \<Rightarrow> AuthState \<times> storage" where
  "incrementMessageCount = (\<lambda>(st, ls).
     if isAnonymous st then
       (let newCount = anonymousMessageCount st + 1
        in (st\<lparr>anonymousMessageCount := newCount\<rparr>,
            ls(MESSAGE_COUNT_KEY \<mapsto> toString newCount)))
     else (st, ls))"

subsection \<open>\<^verbatim>\<open>getAnonymousSessionId\<close> and \<^verbatim>\<open>register\<close>\<close>

definition getAnonymousSessionId :: "storage \<Rightarrow> string option" where
  "getAnonymousSessionId ls = ls SESSION_ID_KEY"

text \<open>
  The two endpoints \<^verbatim>\<open>register\<close> can reach through \<^verbatim>\<open>apiClient\<close>
  (\<^verbatim>\<open>frontend/src/lib/api.ts\<close>): \<^verbatim>\<open>promoteAnonymous(email, password, sessionId)\<close>
  posts to \<^verbatim>\<open>/auth/promote-anonymous\<close>, \<^verbatim>\<open>register(data)\<close> posts to
  \<^verbatim>\<open>/auth/register\<close>.
\<close>

datatype api_call =
    PromoteAnonymous string string string
  | RegisterPlain RegisterRequest

datatype api_error = HttpError nat

text \<open>
  The branch of \<^verbatim>\<open>register\<close> that chooses the endpoint. A JavaScript string is
  truthy when it is not empty; \<^verbatim>\<open>null\<close> (no item stored) is falsy.
  \<^verbatim>\<open>
  const sessionId = getAnonymousSessionId();
  if (sessionId && state.anonymousMessageCount > 0) {
    response = await apiClient.promoteAnonymous(data.email, data.password, sessionId);
  } else {
    response = await apiClient.register(data);
  }
  \<close>
\<close>

definition register_request :: "AuthState \<Rightarrow> storage \<Rightarrow> RegisterRequest \<Rightarrow> api_call" where
  "register_request st ls data =
     (case getAnonymousSessionId ls of
        None \<Rightarrow> RegisterPlain data
      | Some sessionId \<Rightarrow>
          if sessionId \<noteq> [] \<and> anonymousMessageCount st > 0
          then PromoteAnonymous (reg_email data) (reg_password data) sessionId
          else RegisterPlain data)"

text \<open>
  The backend is outside the repository: \<open>backend\<close> answers a call with an
  \<^verbatim>\<open>AuthResponse\<close> or with an error, which axios turns into a rejected promise. Both
  \<^verbatim>\<open>apiClient\<close> methods store the access token once the response has arrived. On a
  rejection \<^verbatim>\<open>register\<close> rethrows before it has touched the state or the storage.
\<close>

definition register ::
  "(api_call \<Rightarrow> api_error + AuthResponse) \<Rightarrow> AuthState \<times> storage \<Rightarrow> RegisterRequest
     \<Rightarrow> api_error + AuthState \<times> storage" where
  "register backend = (\<lambda>(st, ls) data.
     case backend (register_request st ls data) of
       Inl err \<Rightarrow> Inl err
     | Inr response \<Rightarrow>
         Inr (\<lparr>user = Some (resp_user response), isAuthenticated = True,
               isAnonymous = False, anonymousMessageCount = 0, loading = False\<rparr>,
              (ls(ACCESS_TOKEN_KEY \<mapsto> access_token response))
                (MESSAGE_COUNT_KEY := None, SESSION_ID_KEY := None)))"

subsection \<open>\<^verbatim>\<open>login\<close>, and the states the provider sets\<close>

text \<open>
  \<^verbatim>\<open>
  const response = await apiClient.login(data);
  setState({ user: response.user, isAuthenticated: true, isAnonymous: false,
             anonymousMessageCount: 0, loading: false });
  localStorage.removeItem(MESSAGE_COUNT_KEY);
  \<close>
\<close>

definition login ::
  "api_error + AuthResponse \<Rightarrow> AuthState \<times> storage \<Rightarrow> api_error + AuthState \<times> storage" where
  "login answer = (\<lambda>(st, ls).
     case answer of
       Inl err \<Rightarrow> Inl err
     | Inr response \<Rightarrow>
         Inr (\<lparr>user = Some (resp_user response), isAuthenticated = True,
               isAnonymous = False, anonymousMessageCount = 0, loading = False\<rparr>,
              (ls(ACCESS_TOKEN_KEY \<mapsto> access_token response))
                (MESSAGE_COUNT_KEY := None)))"

text \<open>
  Every value the provider gives its state: the initial one; the two updates of the
  mount effect (a stored access token makes the state authenticated, otherwise the
  stored count is loaded); the state after \<^verbatim>\<open>login\<close> or \<^verbatim>\<open>register\<close>; the state after
  \<^verbatim>\<open>logout\<close>, which loads the stored count again; and the update of
  \<^verbatim>\<open>incrementMessageCount\<close>. The count that \<^verbatim>\<open>parseInt\<close> reads from the storage is left
  open, and so is the order of the updates: the predicate holds for every state that
  can arise, and for some that cannot.
\<close>

inductive provider_state :: "AuthState \<Rightarrow> bool" where
  initial: "provider_state initialAuthState"
| mounted_with_token:
    "provider_state st \<Longrightarrow>
     provider_state (st\<lparr>isAuthenticated := True, isAnonymous := False, loading := False\<rparr>)"
| mounted_anonymous:
    "provider_state st \<Longrightarrow>
     provider_state (st\<lparr>anonymousMessageCount := count, loading := False\<rparr>)"
| signed_in:
    "provider_state \<lparr>user = Some u, isAuthenticated = True, isAnonymous = False,
                     anonymousMessageCount = 0, loading = False\<rparr>"
| logged_out:
    "provider_state \<lparr>user = None, isAuthenticated = False, isAnonymous = True,
                     anonymousMessageCount = count, loading = False\<rparr>"
| incremented:
    "provider_state st \<Longrightarrow> isAnonymous st \<Longrightarrow>
     provider_state (st\<lparr>anonymousMessageCount := anonymousMessageCount st + 1\<rparr>)"

section \<open>JavaScript values and strings\<close>

text \<open>
  The event stream carries JSON documents, and \<^verbatim>\<open>streamMessage\<close> handles what
  \<^verbatim>\<open>JSON.parse\<close> returns as a value of type \<^verbatim>\<open>any\<close>. The values \<^verbatim>\<open>JSON.parse\<close> can
  return are modelled as they are: \<^verbatim>\<open>null\<close>, booleans, numbers, strings, arrays and
  objects. A number is kept as the decimal it was written as, a mantissa \<open>m\<close> and an
  exponent \<open>e\<close> standing for \<open>m * 10 ^ e\<close>; the code looks at a number only to ask
  whether it is zero. An object keeps its members in document order; reading a
  property takes the last member of that name, as \<^verbatim>\<open>JSON.parse\<close> does with a repeated
  key.

  A string is a list of \<open>char\<close>: the model covers text whose code units are below
  256. The \<^verbatim>\<open>TextDecoder\<close> is used in streaming mode, so it hands over characters,
  never parts of one; a chunk of the model is the text decoded from one \<^verbatim>\<open>read()\<close>.
\<close>

datatype json =
    JNull
  | JBool bool
  | JNum int int
  | JStr string
  | JArr "json list"
  | JObj "(string \<times> json) list"

text \<open>Truthiness of a value, and of a property that may be \<^verbatim>\<open>undefined\<close> (\<open>None\<close>).\<close>

fun truthy :: "json \<Rightarrow> bool" where
  "truthy JNull = False"
| "truthy (JBool b) = b"
| "truthy (JNum m e) = (m \<noteq> 0)"
| "truthy (JStr s) = (s \<noteq> [])"
| "truthy (JArr items) = True"
| "truthy (JObj members) = True"

definition truthy_opt :: "json option \<Rightarrow> bool" where
  "truthy_opt v = (case v of None \<Rightarrow> False | Some x \<Rightarrow> truthy x)"

text \<open>
  Reading one of the properties \<^verbatim>\<open>type\<close>, \<^verbatim>\<open>data\<close>, \<^verbatim>\<open>session_id\<close> or \<^verbatim>\<open>sources\<close> of a
  value other than \<^verbatim>\<open>null\<close>: an object gives its member or \<^verbatim>\<open>undefined\<close>; strings,
  numbers, booleans and arrays have no property of these names. (Reading a property of
  \<^verbatim>\<open>null\<close> throws; the callers treat that case before they read.)
\<close>

definition get_property :: "json \<Rightarrow> string \<Rightarrow> json option" where
  "get_property v name =
     (case v of JObj members \<Rightarrow> map_of (rev members) name | _ \<Rightarrow> None)"

text \<open>\<^verbatim>\<open>String.prototype.trim\<close>: white space and line terminators, as far as they are
  below 256.\<close>

definition js_whitespace :: "char \<Rightarrow> bool" where
  "js_whitespace c =
     (c \<in> set [CHR 0x09, CHR 0x0A, CHR 0x0B, CHR 0x0C, CHR 0x0D, CHR 0x20, CHR 0xA0])"

definition trim :: "string \<Rightarrow> string" where
  "trim s = rev (dropWhile js_whitespace (rev (dropWhile js_whitespace s)))"

definition startsWith :: "string \<Rightarrow> string \<Rightarrow> bool" where
  "startsWith s prefix = (take (length prefix) s = prefix)"

text \<open>\<^verbatim>\<open>chunk.split('\n')\<close>: the pieces between line feeds; never an empty array.\<close>

fun split_lines :: "string \<Rightarrow> string list" where
  "split_lines [] = [[]]"
| "split_lines (c # cs) =
     (if c = CHR 0x0A then [] # split_lines cs
      else (case split_lines cs of
              [] \<Rightarrow> [[c]]
            | l # ls \<Rightarrow> (c # l) # ls))"

section \<open>A reference model of \<^verbatim>\<open>JSON.parse\<close>\<close>

text \<open>
  \<^verbatim>\<open>JSON.parse\<close> belongs to the JavaScript runtime, not to the repository. The model of
  \<^verbatim>\<open>streamMessage\<close> below takes it as a parameter, a function from the text to the
  parsed value or to \<open>None\<close> where \<^verbatim>\<open>JSON.parse\<close> throws a \<^verbatim>\<open>SyntaxError\<close>, and the
  general theorems hold for every such function. To run the model on concrete streams
  this section gives an executable parser for the JSON grammar (ECMA-404): a scanner
  that goes through the text once, and a pushdown recogniser over its tokens. A
  \<^verbatim>\<open>\uXXXX\<close> escape above \<^verbatim>\<open>00FF\<close> is outside the 8-bit characters of the model
  and is rejected here.
\<close>

datatype json_token =
    TLBrace | TRBrace | TLBracket | TRBracket | TColon | TComma
  | TString string | TNumber int int | TTrue | TFalse | TNull

definition is_digit :: "char \<Rightarrow> bool" where
  "is_digit c = (c \<in> set ''0123456789'')"

definition digit_val :: "char \<Rightarrow> nat" where
  "digit_val c = of_char c - 48"

definition decimal :: "string \<Rightarrow> nat" where
  "decimal ds = foldl (\<lambda>n c. 10 * n + digit_val c) 0 ds"

definition is_hex :: "char \<Rightarrow> bool" where
  "is_hex c = (c \<in> set ''0123456789abcdefABCDEF'')"

definition hex_val :: "char \<Rightarrow> nat" where
  "hex_val c =
     (if is_digit c then of_char c - 48
      else if c \<in> set ''abcdef'' then of_char c - 87
      else of_char c - 55)"

definition hexadecimal :: "string \<Rightarrow> nat" where
  "hexadecimal hs = foldl (\<lambda>n c. 16 * n + hex_val c) 0 hs"

text \<open>The exponent part of a number: nothing, or \<^verbatim>\<open>e\<close>, an optional sign and digits.\<close>

definition number_exponent :: "string \<Rightarrow> int option" where
  "number_exponent r =
     (case r of
        [] \<Rightarrow> Some 0
      | c # r1 \<Rightarrow>
          if c = CHR ''e'' \<or> c = CHR ''E'' then
            (case r1 of
               [] \<Rightarrow> None
             | s # r2 \<Rightarrow>
                 if s = CHR ''-'' then
                   (if r2 \<noteq> [] \<and> list_all is_digit r2
                    then Some (- int (decimal r2)) else None)
                 else if s = CHR ''+'' then
                   (if r2 \<noteq> [] \<and> list_all is_digit r2
                    then Some (int (decimal r2)) else None)
                 else
                   (if list_all is_digit r1 then Some (int (decimal r1)) else None))
          else None)"

text \<open>Integer part (no leading zero before another digit), optional fraction, optional
  exponent.\<close>

definition number_unsigned :: "string \<Rightarrow> (int \<times> int) option" where
  "number_unsigned w =
     (let ip = takeWhile is_digit w; r1 = dropWhile is_digit w in
      if ip = [] \<or> (length ip > 1 \<and> hd ip = CHR ''0'') then None
      else
        (case r1 of
           [] \<Rightarrow> Some (int (decimal ip), 0)
         | c # r2 \<Rightarrow>
             if c = CHR ''.'' then
               (let fp = takeWhile is_digit r2; r3 = dropWhile is_digit r2 in
                if fp = [] then None
                else map_option (\<lambda>e. (int (decimal (ip @ fp)), e - int (length fp)))
                       (number_exponent r3))
             else map_option (\<lambda>e. (int (decimal ip), e)) (number_exponent r1)))"

definition number_token :: "string \<Rightarrow> json_token option" where
  "number_token w =
     (case w of
        [] \<Rightarrow> None
      | c # r \<Rightarrow>
          if c = CHR ''-''
          then map_option (\<lambda>(m, e). TNumber (- m) e) (number_unsigned r)
          else map_option (\<lambda>(m, e). TNumber m e) (number_unsigned w))"

definition word_token :: "string \<Rightarrow> json_token option" where
  "word_token w =
     (if w = ''true'' then Some TTrue
      else if w = ''false'' then Some TFalse
      else if w = ''null'' then Some TNull
      else number_token w)"

text \<open>The scanner: outside a token, inside a string, after a backslash, inside the four
  digits of a \<^verbatim>\<open>\u\<close> escape, or inside a word (a literal name or a number).\<close>

datatype lex_state =
    LIdle
  | LString string
  | LEscape string
  | LUnicode string string
  | LWord string

definition is_json_space :: "char \<Rightarrow> bool" where
  "is_json_space c = (c \<in> set [CHR 0x20, CHR 0x09, CHR 0x0A, CHR 0x0D])"

definition is_word_char :: "char \<Rightarrow> bool" where
  "is_word_char c =
     (c \<in> set ''0123456789+-.abcdefghijklmnopqrstuvwxyzABCDEFGHIJKLMNOPQRSTUVWXYZ'')"

definition lex_idle :: "json_token list \<Rightarrow> char \<Rightarrow> (lex_state \<times> json_token list) option" where
  "lex_idle acc c =
     (if is_json_space c then Some (LIdle, acc)
      else if c = CHR ''{'' then Some (LIdle, TLBrace # acc)
      else if c = CHR ''}'' then Some (LIdle, TRBrace # acc)
      else if c = CHR ''['' then Some (LIdle, TLBracket # acc)
      else if c = CHR '']'' then Some (LIdle, TRBracket # acc)
      else if c = CHR '':'' then Some (LIdle, TColon # acc)
      else if c = CHR '','' then Some (LIdle, TComma # acc)
      else if c = CHR 0x22 then Some (LString [], acc)
      else if is_word_char c then Some (LWord [c], acc)
      else None)"

definition lex_escape :: "char \<Rightarrow> char option" where
  "lex_escape c =
     (if c = CHR 0x22 \<or> c = CHR 0x5C \<or> c = CHR ''/'' then Some c
      else if c = CHR ''b'' then Some (CHR 0x08)
      else if c = CHR ''f'' then Some (CHR 0x0C)
      else if c = CHR ''n'' then Some (CHR 0x0A)
      else if c = CHR ''r'' then Some (CHR 0x0D)
      else if c = CHR ''t'' then Some (CHR 0x09)
      else None)"

definition lex_step ::
  "(lex_state \<times> json_token list) option \<Rightarrow> char \<Rightarrow> (lex_state \<times> json_token list) option" where
  "lex_step s c =
     (case s of
        None \<Rightarrow> None
      | Some (LIdle, acc) \<Rightarrow> lex_idle acc c
      | Some (LString str, acc) \<Rightarrow>
          if c = CHR 0x22 then Some (LIdle, TString (rev str) # acc)
          else if c = CHR 0x5C then Some (LEscape str, acc)
          else if (of_char c :: nat) < 32 then None
          else Some (LString (c # str), acc)
      | Some (LEscape str, acc) \<Rightarrow>
          if c = CHR ''u'' then Some (LUnicode str [], acc)
          else map_option (\<lambda>e. (LString (e # str), acc)) (lex_escape c)
      | Some (LUnicode str hs, acc) \<Rightarrow>
          if \<not> is_hex c then None
          else if length hs < 3 then Some (LUnicode str (hs @ [c]), acc)
          else if hexadecimal (hs @ [c]) < 256
          then Some (LString (char_of (hexadecimal (hs @ [c])) # str), acc)
          else None
      | Some (LWord w, acc) \<Rightarrow>
          if is_word_char c then Some (LWord (w @ [c]), acc)
          else (case word_token w of
                  None \<Rightarrow> None
                | Some t \<Rightarrow> lex_idle (t # acc) c))"

definition lex_end :: "(lex_state \<times> json_token list) option \<Rightarrow> json_token list option" where
  "lex_end s =
     (case s of
        Some (LIdle, acc) \<Rightarrow> Some (rev acc)
      | Some (LWord w, acc) \<Rightarrow> map_option (\<lambda>t. rev (t # acc)) (word_token w)
      | _ \<Rightarrow> None)"

definition json_tokens :: "string \<Rightarrow> json_token list option" where
  "json_tokens s = lex_end (foldl lex_step (Some (LIdle, [])) s)"

text \<open>The recogniser: a stack of the arrays and objects that are open, and what may come
  next.\<close>

datatype json_frame =
    InArray "json list"
  | InObject "(string \<times> json) list" "string option"

datatype json_expect =
    ExpValue | ExpValueOrEnd | ExpKey | ExpKeyOrEnd | ExpColon | ExpCommaOrEnd
  | ExpNothing json

definition json_complete ::
  "json \<Rightarrow> json_frame list \<Rightarrow> (json_expect \<times> json_frame list) option" where
  "json_complete v st =
     (case st of
        [] \<Rightarrow> Some (ExpNothing v, [])
      | InArray items # st' \<Rightarrow> Some (ExpCommaOrEnd, InArray (items @ [v]) # st')
      | InObject members (Some k) # st' \<Rightarrow>
          Some (ExpCommaOrEnd, InObject (members @ [(k, v)]) None # st')
      | InObject members None # st' \<Rightarrow> None)"

definition json_value ::
  "json_token \<Rightarrow> json_frame list \<Rightarrow> (json_expect \<times> json_frame list) option" where
  "json_value t st =
     (case t of
        TLBrace \<Rightarrow> Some (ExpKeyOrEnd, InObject [] None # st)
      | TLBracket \<Rightarrow> Some (ExpValueOrEnd, InArray [] # st)
      | TString s \<Rightarrow> json_complete (JStr s) st
      | TNumber m e \<Rightarrow> json_complete (JNum m e) st
      | TTrue \<Rightarrow> json_complete (JBool True) st
      | TFalse \<Rightarrow> json_complete (JBool False) st
      | TNull \<Rightarrow> json_complete JNull st
      | _ \<Rightarrow> None)"

definition json_key ::
  "json_token \<Rightarrow> json_frame list \<Rightarrow> (json_expect \<times> json_frame list) option" where
  "json_key t st =
     (case (t, st) of
        (TString k, InObject members None # st') \<Rightarrow>
          Some (ExpColon, InObject members (Some k) # st')
      | _ \<Rightarrow> None)"

definition json_close ::
  "json_token \<Rightarrow> json_frame list \<Rightarrow> (json_expect \<times> json_frame list) option" where
  "json_close t st =
     (case (t, st) of
        (TRBracket, InArray items # st') \<Rightarrow> json_complete (JArr items) st'
      | (TRBrace, InObject members None # st') \<Rightarrow> json_complete (JObj members) st'
      | _ \<Rightarrow> None)"

definition json_step ::
  "(json_expect \<times> json_frame list) option \<Rightarrow> json_token
     \<Rightarrow> (json_expect \<times> json_frame list) option" where
  "json_step p t =
     (case p of
        None \<Rightarrow> None
      | Some (ExpValue, st) \<Rightarrow> json_value t st
      | Some (ExpValueOrEnd, st) \<Rightarrow>
          if t = TRBracket then json_close t st else json_value t st
      | Some (ExpKey, st) \<Rightarrow> json_key t st
      | Some (ExpKeyOrEnd, st) \<Rightarrow>
          if t = TRBrace then json_close t st else json_key t st
      | Some (ExpColon, st) \<Rightarrow> if t = TColon then Some (ExpValue, st) else None
      | Some (ExpCommaOrEnd, st) \<Rightarrow>
          if t = TComma then
            (case st of
               [] \<Rightarrow> None
             | InArray items # st' \<Rightarrow> Some (ExpValue, st)
             | InObject members k # st' \<Rightarrow> Some (ExpKey, st))
          else json_close t st
      | Some (ExpNothing v, st) \<Rightarrow> None)"

definition JSON_parse :: "string \<Rightarrow> json option" where
  "JSON_parse s =
     (case json_tokens s of
        None \<Rightarrow> None
      | Some ts \<Rightarrow>
          (case foldl json_step (Some (ExpValue, [])) ts of
             Some (ExpNothing v, []) \<Rightarrow> Some v
           | _ \<Rightarrow> None))"

section \<open>The event stream: \<^verbatim>\<open>streamMessage\<close> in \<^verbatim>\<open>frontend/src/lib/api.ts\<close>\<close>

text \<open>
  \<^verbatim>\<open>streamMessage\<close> is an async generator. What its consumer sees is the sequence of
  events it yields and the way it ends. The generator ends in one of three ways: it
  executes \<^verbatim>\<open>return\<close> at the \<^verbatim>\<open>[DONE]\<close> marker, it leaves the loop when the reader
  reports \<^verbatim>\<open>done\<close>, or it throws. The first two look the same to a \<^verbatim>\<open>for await\<close> loop;
  the model keeps them apart so that properties of the marker can be stated.
\<close>

datatype stream_event = ContentEvent json | MetadataEvent json

datatype stream_error = FetchFailed | HttpStatus nat | NoResponseBody | ReadFailed

datatype outcome = ReturnedAtDone | ReturnedAtEnd | Threw stream_error

text \<open>What one line of a chunk makes the generator do.\<close>

datatype line_result = Skip | Return | Yield stream_event

text \<open>
  The body of the inner \<^verbatim>\<open>try\<close>, once \<^verbatim>\<open>JSON.parse\<close> has returned \<^verbatim>\<open>parsed\<close>:
  \<^verbatim>\<open>
  if (parsed.type === 'content' && parsed.data) {
    yield { type: 'content', data: parsed.data };
  }
  else if (parsed.type === 'sources' && parsed.data) {
    yield { type: 'metadata', data: { sources: parsed.data } };
  }
  else if (parsed.type === 'metadata' || parsed.session_id) {
    yield { type: 'metadata', data: parsed };
  }
  \<close>
  When \<^verbatim>\<open>parsed\<close> is \<^verbatim>\<open>null\<close>, reading \<^verbatim>\<open>parsed.type\<close> throws a \<^verbatim>\<open>TypeError\<close>, which
  the \<^verbatim>\<open>catch\<close> of the same \<^verbatim>\<open>try\<close> swallows.
\<close>

definition handle_parsed :: "json \<Rightarrow> line_result" where
  "handle_parsed parsed =
     (if parsed = JNull then Skip
      else if get_property parsed ''type'' = Some (JStr ''content'')
              \<and> truthy_opt (get_property parsed ''data'') then
        (case get_property parsed ''data'' of
           Some d \<Rightarrow> Yield (ContentEvent d)
         | None \<Rightarrow> Skip)
      else if get_property parsed ''type'' = Some (JStr ''sources'')
              \<and> truthy_opt (get_property parsed ''data'') then
        (case get_property parsed ''data'' of
           Some d \<Rightarrow> Yield (MetadataEvent (JObj [(''sources'', d)]))
         | None \<Rightarrow> Skip)
      else if get_property parsed ''type'' = Some (JStr ''metadata'')
              \<or> truthy_opt (get_property parsed ''session_id'') then
        Yield (MetadataEvent parsed)
      else Skip)"

text \<open>
  One iteration of \<^verbatim>\<open>for (const line of lines)\<close>:
  \<^verbatim>\<open>
  if (line.trim() && line.startsWith('data: ')) {
    const dataStr = line.slice(6).trim();
    if (dataStr === '[DONE]') { return; }
    try {
      const parsed = JSON.parse(dataStr);
      ...
    } catch (e) { console.debug('Skipping SSE line:', dataStr); }
  }
  \<close>
\<close>

definition processLine :: "(string \<Rightarrow> json option) \<Rightarrow> string \<Rightarrow> line_result" where
  "processLine parse line =
     (if trim line \<noteq> [] \<and> startsWith line ''data: '' then
        (let dataStr = trim (drop 6 line) in
         if dataStr = ''[DONE]'' then Return
         else (case parse dataStr of
                 None \<Rightarrow> Skip
               | Some parsed \<Rightarrow> handle_parsed parsed))
      else Skip)"

text \<open>The inner loop over the lines of one chunk: the events it yields, and whether it
  left through \<^verbatim>\<open>return\<close>.\<close>

fun forLines :: "(string \<Rightarrow> json option) \<Rightarrow> string list \<Rightarrow> stream_event list \<times> bool" where
  "forLines parse [] = ([], False)"
| "forLines parse (line # lines) =
     (case processLine parse line of
        Return \<Rightarrow> ([], True)
      | Skip \<Rightarrow> forLines parse lines
      | Yield ev \<Rightarrow>
          (case forLines parse lines of (evs, returned) \<Rightarrow> (ev # evs, returned)))"

text \<open>
  The response body: the texts of the successive reads, and how the reads end, with
  \<^verbatim>\<open>{done: true}\<close> or with a rejected \<^verbatim>\<open>read()\<close>.
\<close>

datatype read_end = EndOfBody | ReadError

definition end_of_reads :: "read_end \<Rightarrow> outcome" where
  "end_of_reads e = (case e of EndOfBody \<Rightarrow> ReturnedAtEnd | ReadError \<Rightarrow> Threw ReadFailed)"

text \<open>
  The outer loop. Nothing is carried from one chunk to the next: each chunk is split
  and gone through by itself.
  \<^verbatim>\<open>
  while (true) {
    const { done, value } = await reader.read();
    if (done) break;
    const chunk = decoder.decode(value, { stream: true });
    const lines = chunk.split('\n');
    for (const line of lines) { ... }
  }
  \<close>
\<close>

fun readLoop ::
  "(string \<Rightarrow> json option) \<Rightarrow> string list \<Rightarrow> read_end \<Rightarrow> stream_event list \<times> outcome" where
  "readLoop parse [] e = ([], end_of_reads e)"
| "readLoop parse (chunk # chunks) e =
     (case forLines parse (split_lines chunk) of
        (evs, True) \<Rightarrow> (evs, ReturnedAtDone)
      | (evs, False) \<Rightarrow>
          (case readLoop parse chunks e of (evs', out) \<Rightarrow> (evs @ evs', out)))"

text \<open>What \<^verbatim>\<open>fetch\<close> gives: a rejection, or a response with its \<^verbatim>\<open>ok\<close> flag, its status
  and its body, if it has one.\<close>

record Response =
  ok :: bool
  status :: nat
  body :: "(string list \<times> read_end) option"

datatype fetch_result = FetchRejected | FetchResolved Response

text \<open>
  \<^verbatim>\<open>
  if (!response.ok) { throw new Error(`HTTP error! status: ${response.status}`); }
  const reader = response.body?.getReader();
  if (!reader) { throw new Error('No response body'); }
  \<close>
\<close>

definition streamMessage ::
  "(string \<Rightarrow> json option) \<Rightarrow> fetch_result \<Rightarrow> stream_event list \<times> outcome" where
  "streamMessage parse fetched =
     (case fetched of
        FetchRejected \<Rightarrow> ([], Threw FetchFailed)
      | FetchResolved response \<Rightarrow>
          if \<not> ok response then ([], Threw (HttpStatus (status response)))
          else (case body response of
                  None \<Rightarrow> ([], Threw NoResponseBody)
                | Some (chunks, e) \<Rightarrow> readLoop parse chunks e))"

section \<open>The chat hook: \<^verbatim>\<open>useChat\<close>\<close>

text \<open>
  The hook keeps four pieces of React state: the message list, the sources recorded by
  message index, the text streamed so far, and the streaming flag. A \<^verbatim>\<open>Source\<close> is
  whatever JSON value the backend sent for it; the hook never looks inside one. The
  \<^verbatim>\<open>sources\<close> field of a \<^verbatim>\<open>Message\<close> is optional and is an array of source objects or,
  in the legacy format, of id strings.
\<close>

datatype role = UserRole | AssistantRole | SystemRole

record Message =
  role :: role
  content :: string
  timestamp :: string
  message_sources :: "json list option"

record ChatState =
  messages :: "Message list"
  sources :: "nat \<rightharpoonup> json"
  streamingContent :: string
  isStreaming :: bool

record SendVariables =
  vars_message :: string
  vars_sessionId :: "string option"

text \<open>What \<^verbatim>\<open>mutationFn\<close> returns to \<^verbatim>\<open>onSuccess\<close>.\<close>

record SendData =
  data_content :: string
  data_sessionId :: "json option"
  data_sources :: json

text \<open>
  \<^verbatim>\<open>fullResponse += chunk.data\<close>: a string operand is appended as it is. For any other
  value JavaScript appends its string conversion, which belongs to the runtime and is
  the parameter \<open>coerce\<close>.
\<close>

definition to_text :: "(json \<Rightarrow> string) \<Rightarrow> json \<Rightarrow> string" where
  "to_text coerce d = (case d of JStr s \<Rightarrow> s | _ \<Rightarrow> coerce d)"

text \<open>
  The own enumerable properties that an object spread \<^verbatim>\<open>{...x}\<close> copies from a value:
  the members of an object, the elements of an array and the characters of a string
  under their indices, nothing from the other values.
\<close>

definition object_spread :: "json \<Rightarrow> (string \<times> json) list" where
  "object_spread d =
     (case d of
        JObj members \<Rightarrow> members
      | JArr items \<Rightarrow> zip (map (\<lambda>i. toString (int i)) [0..<length items]) items
      | JStr s \<Rightarrow> zip (map (\<lambda>i. toString (int i)) [0..<length s]) (map (\<lambda>c. JStr [c]) s)
      | _ \<Rightarrow> [])"

text \<open>
  \<^verbatim>\<open>x > 0\<close> for a value read from a JSON document. JavaScript converts the left
  operand to a number first: a boolean to 1 or 0, \<^verbatim>\<open>null\<close> to 0, a string by the grammar
  of numeric strings (white space around it, an optional sign, \<^verbatim>\<open>Infinity\<close>, a decimal
  with optional fraction and exponent, or an unsigned literal with prefix \<^verbatim>\<open>0x\<close>,
  \<^verbatim>\<open>0o\<close>, \<^verbatim>\<open>0b\<close>; the empty string is 0), an array through its string form (its
  elements joined by commas, \<^verbatim>\<open>null\<close> as the empty string), an object to \<^verbatim>\<open>NaN\<close>. As for
  truthiness, a number counts as positive when its mantissa is.
\<close>

definition has_nonzero_digit :: "string \<Rightarrow> bool" where
  "has_nonzero_digit ds = list_ex (\<lambda>d. d \<noteq> CHR ''0'') ds"

definition unsigned_decimal_positive :: "string \<Rightarrow> bool" where
  "unsigned_decimal_positive u =
     (let ip = takeWhile is_digit u; r = dropWhile is_digit u in
      case r of
        [] \<Rightarrow> ip \<noteq> [] \<and> has_nonzero_digit ip
      | c # r2 \<Rightarrow>
          if c = CHR ''.'' then
            (let fp = takeWhile is_digit r2; r3 = dropWhile is_digit r2 in
             (ip \<noteq> [] \<or> fp \<noteq> []) \<and> number_exponent r3 \<noteq> None
             \<and> has_nonzero_digit (ip @ fp))
          else ip \<noteq> [] \<and> number_exponent r \<noteq> None \<and> has_nonzero_digit ip)"

definition prefixed_literal_positive :: "string \<Rightarrow> bool" where
  "prefixed_literal_positive t =
     (case t of
        z # x # ds \<Rightarrow>
          z = CHR ''0'' \<and> ds \<noteq> [] \<and> has_nonzero_digit ds \<and>
          (if x = CHR ''x'' \<or> x = CHR ''X'' then list_all is_hex ds
           else if x = CHR ''o'' \<or> x = CHR ''O'' then list_all (\<lambda>d. d \<in> set ''01234567'') ds
           else if x = CHR ''b'' \<or> x = CHR ''B'' then list_all (\<lambda>d. d \<in> set ''01'') ds
           else False)
      | _ \<Rightarrow> False)"

definition numeric_string_positive :: "string \<Rightarrow> bool" where
  "numeric_string_positive s =
     (case trim s of
        [] \<Rightarrow> False
      | c # r \<Rightarrow>
          if c = CHR ''-'' then False
          else if c = CHR ''+'' then r = ''Infinity'' \<or> unsigned_decimal_positive r
          else c # r = ''Infinity'' \<or> unsigned_decimal_positive (c # r)
               \<or> prefixed_literal_positive (c # r))"

text \<open>The string form of a value as an array element, converted to a number and
  compared with 0.\<close>

fun joined_positive :: "json \<Rightarrow> bool" where
  "joined_positive JNull = False"
| "joined_positive (JBool b) = False"
| "joined_positive (JNum m e) = (0 < m)"
| "joined_positive (JStr s) = numeric_string_positive s"
| "joined_positive (JArr [x]) = joined_positive x"
| "joined_positive (JArr items) = False"
| "joined_positive (JObj members) = False"

definition greater_than_zero :: "json \<Rightarrow> bool" where
  "greater_than_zero v =
     (case v of JBool b \<Rightarrow> b | JNull \<Rightarrow> False | _ \<Rightarrow> joined_positive v)"

text \<open>
  \<^verbatim>\<open>x.length > 0\<close> for a truthy value \<open>x\<close>: the number of elements of an array, the
  number of characters of a string, the \<^verbatim>\<open>length\<close> member of an object if it has one;
  numbers and booleans have no \<^verbatim>\<open>length\<close>, and \<^verbatim>\<open>undefined > 0\<close> is false.
\<close>

definition positive_length :: "json \<Rightarrow> bool" where
  "positive_length v =
     (case v of
        JArr items \<Rightarrow> items \<noteq> []
      | JStr s \<Rightarrow> s \<noteq> []
      | JObj members \<Rightarrow>
          (case get_property v ''length'' of
             None \<Rightarrow> False
           | Some l \<Rightarrow> greater_than_zero l)
      | _ \<Rightarrow> False)"

subsection \<open>\<^verbatim>\<open>mutationFn\<close>\<close>

text \<open>
  \<^verbatim>\<open>
  const userMessage: Message = { role: "user", content: message,
                                 timestamp: new Date().toISOString() };
  setMessages((prev) => [...prev, userMessage]);
  setIsStreaming(true);
  setStreamingContent("");
  \<close>
  The clock is outside the program: \<open>now\<close> is the time stamp it gives.
\<close>

definition userMessage :: "SendVariables \<Rightarrow> string \<Rightarrow> Message" where
  "userMessage vars now =
     \<lparr>role = UserRole, content = vars_message vars, timestamp = now, message_sources = None\<rparr>"

definition begin_send :: "SendVariables \<Rightarrow> string \<Rightarrow> ChatState \<Rightarrow> ChatState" where
  "begin_send vars now st =
     st\<lparr>messages := messages st @ [userMessage vars now],
        isStreaming := True, streamingContent := []\<rparr>"

text \<open>
  The state of the \<^verbatim>\<open>for await\<close> loop: the hook state, \<^verbatim>\<open>fullResponse\<close>, and the members
  of \<^verbatim>\<open>metadata\<close>.
  \<^verbatim>\<open>
  let fullResponse = "";
  let metadata = { session_id: "", sources: [] };
  for await (const chunk of apiClient.streamMessage({ message, session_id: sessionId })) {
    if (chunk.type === "content") {
      fullResponse += chunk.data;
      setStreamingContent(fullResponse);
    } else if (chunk.type === "metadata") {
      metadata = { ...metadata, ...chunk.data };
    }
  }
  \<close>
\<close>

type_synonym loop_state = "ChatState \<times> string \<times> (string \<times> json) list"

definition initial_metadata :: "(string \<times> json) list" where
  "initial_metadata = [(''session_id'', JStr []), (''sources'', JArr [])]"

definition consume_event :: "(json \<Rightarrow> string) \<Rightarrow> stream_event \<Rightarrow> loop_state \<Rightarrow> loop_state" where
  "consume_event coerce chunk = (\<lambda>(st, fullResponse, metadata).
     case chunk of
       ContentEvent d \<Rightarrow>
         (st\<lparr>streamingContent := fullResponse @ to_text coerce d\<rparr>,
          fullResponse @ to_text coerce d, metadata)
     | MetadataEvent d \<Rightarrow> (st, fullResponse, metadata @ object_spread d))"

text \<open>The loop states after the first, the second, ... event.\<close>

fun consume_events :: "(json \<Rightarrow> string) \<Rightarrow> stream_event list \<Rightarrow> loop_state \<Rightarrow> loop_state list" where
  "consume_events coerce [] s = []"
| "consume_events coerce (chunk # chunks) s =
     consume_event coerce chunk s # consume_events coerce chunks (consume_event coerce chunk s)"

text \<open>
  \<^verbatim>\<open>
  return {
    content: fullResponse,
    sessionId: metadata.session_id || sessionId,
    sources: metadata.sources || [],
  };
  \<close>
\<close>

definition send_data :: "SendVariables \<Rightarrow> string \<Rightarrow> (string \<times> json) list \<Rightarrow> SendData" where
  "send_data vars fullResponse metadata =
     \<lparr>data_content = fullResponse,
      data_sessionId =
        (if truthy_opt (get_property (JObj metadata) ''session_id'')
         then get_property (JObj metadata) ''session_id''
         else map_option JStr (vars_sessionId vars)),
      data_sources =
        (case get_property (JObj metadata) ''sources'' of
           Some v \<Rightarrow> if truthy v then v else JArr []
         | None \<Rightarrow> JArr [])\<rparr>"

subsection \<open>\<^verbatim>\<open>onSuccess\<close> and \<^verbatim>\<open>onError\<close>\<close>

text \<open>
  \<^verbatim>\<open>
  const assistantMessage: Message = {
    role: "assistant",
    content: data.content ||
      "I apologize, but I encountered an error generating a response.",
    timestamp: new Date().toISOString(),
  };
  setMessages((prev) => {
    const newMessages = [...prev, assistantMessage];
    if (data.sources && data.sources.length > 0) {
      setSources((prevSources) => ({ ...prevSources,
                                     [newMessages.length - 1]: data.sources }));
    }
    return newMessages;
  });
  setStreamingContent("");
  setIsStreaming(false);
  \<close>
\<close>

definition assistantMessage :: "SendData \<Rightarrow> string \<Rightarrow> Message" where
  "assistantMessage data now =
     \<lparr>role = AssistantRole,
      content =
        (if data_content data \<noteq> [] then data_content data
         else ''I apologize, but I encountered an error generating a response.''),
      timestamp = now, message_sources = None\<rparr>"

definition onSuccess :: "SendData \<Rightarrow> string \<Rightarrow> ChatState \<Rightarrow> ChatState" where
  "onSuccess data now st =
     (let newMessages = messages st @ [assistantMessage data now] in
      st\<lparr>messages := newMessages,
         sources :=
           (if truthy (data_sources data) \<and> positive_length (data_sources data)
            then (sources st)(length newMessages - 1 \<mapsto> data_sources data)
            else sources st),
         streamingContent := [], isStreaming := False\<rparr>)"

text \<open>
  \<^verbatim>\<open>
  const errorMessage: Message = {
    role: "assistant",
    content: "I apologize, but I encountered an error. Please try again.",
    timestamp: new Date().toISOString(),
  };
  setMessages((prev) => [...prev, errorMessage]);
  setStreamingContent("");
  setIsStreaming(false);
  \<close>
\<close>

definition errorMessage :: "string \<Rightarrow> Message" where
  "errorMessage now =
     \<lparr>role = AssistantRole,
      content = ''I apologize, but I encountered an error. Please try again.'',
      timestamp = now, message_sources = None\<rparr>"

definition onError :: "string \<Rightarrow> ChatState \<Rightarrow> ChatState" where
  "onError now st =
     st\<lparr>messages := messages st @ [errorMessage now],
        streamingContent := [], isStreaming := False\<rparr>"

subsection \<open>One send, from the first state update to the last\<close>

text \<open>
  \<^verbatim>\<open>sendMessage\<close> runs the mutation: \<^verbatim>\<open>mutationFn\<close>, then \<^verbatim>\<open>onSuccess\<close> when the generator
  ended without throwing, \<^verbatim>\<open>onError\<close> when it threw (the \<^verbatim>\<open>catch\<close> in \<^verbatim>\<open>mutationFn\<close>
  rethrows). The result is the list of the hook states in the order they arise: the
  state after the user message has been appended, the state after each event of the
  stream, and the state the handler leaves. The stream is what \<^verbatim>\<open>streamMessage\<close>
  produced: its events and its outcome.
\<close>

definition sendMessage ::
  "(json \<Rightarrow> string) \<Rightarrow> SendVariables \<Rightarrow> string \<Rightarrow> string
     \<Rightarrow> stream_event list \<times> outcome \<Rightarrow> ChatState \<Rightarrow> ChatState list" where
  "sendMessage coerce vars now_sent now_settled = (\<lambda>(events, out) st.
     let s0 = (begin_send vars now_sent st, [], initial_metadata);
         steps = consume_events coerce events s0
     in map fst (s0 # steps) @
        [case last (s0 # steps) of
           (st1, fullResponse, metadata) \<Rightarrow>
             (case out of
                Threw err \<Rightarrow> onError now_settled st1
              | _ \<Rightarrow> onSuccess (send_data vars fullResponse metadata) now_settled st1)])"

text \<open>
  The callbacks of the hook's user that one send calls: none when the stream threw;
  otherwise those of the end of \<^verbatim>\<open>onSuccess\<close>.
  \<^verbatim>\<open>
  if (data.sessionId) { onSessionCreated?.(data.sessionId); }
  onMessageSent?.();
  \<close>
\<close>

datatype callback = SessionCreated json | MessageSent

definition onSuccess_callbacks :: "SendData \<Rightarrow> callback list" where
  "onSuccess_callbacks data =
     (case data_sessionId data of
        None \<Rightarrow> []
      | Some sid \<Rightarrow> if truthy sid then [SessionCreated sid] else []) @ [MessageSent]"

definition sendMessage_callbacks ::
  "(json \<Rightarrow> string) \<Rightarrow> SendVariables \<Rightarrow> string
     \<Rightarrow> stream_event list \<times> outcome \<Rightarrow> ChatState \<Rightarrow> callback list" where
  "sendMessage_callbacks coerce vars now_sent = (\<lambda>(events, out) st.
     let s0 = (begin_send vars now_sent st, [], initial_metadata);
         steps = consume_events coerce events s0
     in case out of
          Threw err \<Rightarrow> []
        | _ \<Rightarrow>
            (case last (s0 # steps) of
               (st1, fullResponse, metadata) \<Rightarrow>
                 onSuccess_callbacks (send_data vars fullResponse metadata)))"

subsection \<open>\<^verbatim>\<open>setMessagesFromHistory\<close>\<close>




subsection \<open>The sources panel of \<^verbatim>\<open>ChatMessage\<close>\<close>





section \<open>The gate in front of a send: the chat page\<close>

text \<open>
  The chat page (in \<^verbatim>\<open>frontend/src/app/documents/page.tsx\<close>) joins the two hooks:
  \<^verbatim>\<open>
  const { ... } = useChat({
    onSessionCreated: (sessionId) => { setCurrentSessionId(sessionId); invalidateSessions(); },
    onMessageSent: () => { incrementMessageCount(); },
  });

  const handleSendMessage = async (content: string) => {
    if (!canSendMessage()) { setLimitModalOpen(true); return; }
    try { await sendMessage(content, currentSessionId); }
    catch (error) { console.error("Error sending message:", error); }
  };
  \<close>
  \<^verbatim>\<open>useChat\<close> calls \<^verbatim>\<open>onMessageSent\<close> as the last step of \<^verbatim>\<open>onSuccess\<close> and nowhere else, so
  the counter moves exactly for the sends whose stream ended without throwing; these
  are the completed sends. The input box ignores a submit while a send is pending
  (\<^verbatim>\<open>ChatInput\<close>, \<^verbatim>\<open>loading\<close>), so sends follow one another.
\<close>

definition completed :: "outcome \<Rightarrow> bool" where
  "completed out = (case out of Threw err \<Rightarrow> False | _ \<Rightarrow> True)"

text \<open>One call of \<^verbatim>\<open>handleSendMessage\<close>, for the outcome the stream of this send is going
  to have. The first component of the result tells whether the send went out and
  completed.\<close>

definition handleSendMessage ::
  "outcome \<Rightarrow> AuthState \<times> storage \<Rightarrow> bool \<times> AuthState \<times> storage" where
  "handleSendMessage out = (\<lambda>(st, ls).
     if \<not> canSendMessage st then (False, st, ls)
     else if completed out then (True, incrementMessageCount (st, ls))
     else (False, st, ls))"

text \<open>A session of the page: one send attempt after the other; the number counts the
  sends that completed.\<close>

fun run_sends :: "outcome list \<Rightarrow> AuthState \<times> storage \<Rightarrow> nat \<times> AuthState \<times> storage" where
  "run_sends [] s = (0, s)"
| "run_sends (out # outs) s =
     (case handleSendMessage out s of
        (sent, s1) \<Rightarrow>
          (case run_sends outs s1 of
             (n, s2) \<Rightarrow> ((if sent then 1 else 0) + n, s2)))"

section \<open>The session list: \<^verbatim>\<open>frontend/src/hooks/useChatSessions.ts\<close>\<close>

record ChatSession =
  session_id :: string
  session_user_id :: "string option"
  title :: "string option"
  session_created_at :: string
  updated_at :: string
  message_count :: int

text \<open>
  The state the hook works on: the data React Query holds under the key
  \<^verbatim>\<open>['sessions']\<close> (\<^verbatim>\<open>undefined\<close> until a fetch has filled it), whether that query has
  been invalidated, and \<^verbatim>\<open>currentSessionId\<close>. An invalidated query is fetched again
  from the backend; the fetch is outside the model.
\<close>

record SessionsState =
  cache :: "ChatSession list option"
  invalidated :: bool
  currentSessionId :: "string option"

text \<open>The list the hook returns: \<^verbatim>\<open>const { data: sessions = [] } = useQuery(...)\<close>.\<close>

definition sessions :: "SessionsState \<Rightarrow> ChatSession list" where
  "sessions st = (case cache st of None \<Rightarrow> [] | Some l \<Rightarrow> l)"

text \<open>
  \<^verbatim>\<open>
  onMutate: async (sessionId) => {
    await queryClient.cancelQueries({ queryKey: ['sessions'] });
    const previousSessions = queryClient.getQueryData<ChatSession[]>(['sessions']);
    queryClient.setQueryData<ChatSession[]>(['sessions'], (old) =>
      old?.filter((s) => s.session_id !== sessionId) || []
    );
    return { previousSessions };
  },
  \<close>
\<close>

definition onMutate :: "string \<Rightarrow> SessionsState \<Rightarrow> ChatSession list option \<times> SessionsState" where
  "onMutate sessionId st =
     (cache st,
      st\<lparr>cache :=
           Some (case cache st of
                   None \<Rightarrow> []
                 | Some old \<Rightarrow> filter (\<lambda>s. session_id s \<noteq> sessionId) old)\<rparr>)"

text \<open>
  \<^verbatim>\<open>
  onError: (_err, _sessionId, context) => {
    if (context?.previousSessions) {
      queryClient.setQueryData(['sessions'], context.previousSessions);
    }
  },
  onSettled: () => { queryClient.invalidateQueries({ queryKey: ['sessions'] }); },
  \<close>
  An array is truthy, also the empty one; \<^verbatim>\<open>undefined\<close> is not.
\<close>

definition onDeleteError :: "ChatSession list option \<Rightarrow> SessionsState \<Rightarrow> SessionsState" where
  "onDeleteError previousSessions st =
     (case previousSessions of
        None \<Rightarrow> st
      | Some previous \<Rightarrow> st\<lparr>cache := Some previous\<rparr>)"

definition onSettled :: "SessionsState \<Rightarrow> SessionsState" where
  "onSettled st = st\<lparr>invalidated := True\<rparr>"

text \<open>
  \<^verbatim>\<open>
  const deleteSession = async (sessionId: string) => {
    await deleteSessionMutation.mutateAsync(sessionId);
    if (currentSessionId === sessionId) { setCurrentSessionId(undefined); }
  };
  \<close>
  \<open>request\<close> is the answer of the backend to \<^verbatim>\<open>DELETE /chat/sessions/{id}\<close>: \<open>None\<close>
  when it succeeded, the error when axios rejected. The result is the error that
  \<^verbatim>\<open>deleteSession\<close> throws, if any, and the state it leaves.
\<close>

definition deleteSession ::
  "(string \<Rightarrow> api_error option) \<Rightarrow> string \<Rightarrow> SessionsState \<Rightarrow> api_error option \<times> SessionsState" where
  "deleteSession request sessionId st =
     (case onMutate sessionId st of
        (previousSessions, st1) \<Rightarrow>
          (case request sessionId of
             Some err \<Rightarrow> (Some err, onSettled (onDeleteError previousSessions st1))
           | None \<Rightarrow>
               (let st2 = onSettled st1 in
                (None,
                 if currentSessionId st = Some sessionId
                 then st2\<lparr>currentSessionId := None\<rparr>
                 else st2))))"

section \<open>Notions used in the statements\<close>

text \<open>The text that the content events of a stream add up to, in their order.\<close>

definition streamed_text :: "(json \<Rightarrow> string) \<Rightarrow> stream_event list \<Rightarrow> string" where
  "streamed_text coerce events =
     concat (map (\<lambda>ev. case ev of
                          ContentEvent d \<Rightarrow> to_text coerce d
                        | MetadataEvent d \<Rightarrow> []) events)"

text \<open>The assistant message for a stream that ended without throwing: the whole streamed
  text, or the fixed apology of \<^verbatim>\<open>onSuccess\<close> when no text was streamed.\<close>

definition streamed_reply :: "(json \<Rightarrow> string) \<Rightarrow> stream_event list \<Rightarrow> string \<Rightarrow> Message" where
  "streamed_reply coerce events now =
     \<lparr>role = AssistantRole,
      content =
        (if streamed_text coerce events \<noteq> [] then streamed_text coerce events
         else ''I apologize, but I encountered an error generating a response.''),
      timestamp = now, message_sources = None\<rparr>"


section \<open>Properties of the identity gate\<close>

text \<open>In every state the provider sets, \<^verbatim>\<open>isAnonymous\<close> is the negation of
  \<^verbatim>\<open>isAuthenticated\<close>.\<close>

lemma provider_state_flags:
  assumes "provider_state st"
  shows "isAnonymous st \<longleftrightarrow> \<not> isAuthenticated st"
  using assms by induction (simp_all add: initialAuthState_def)

text \<open>
  C3. \<^verbatim>\<open>canSendMessage\<close> returns true for every authenticated state. It tests
  \<^verbatim>\<open>isAuthenticated\<close> only: for every state that is not authenticated it returns true
  exactly when \<^verbatim>\<open>anonymousMessageCount\<close> is strictly less than the limit 3, and so it
  does for every anonymous state the provider sets.
\<close>

theorem canSendMessage_spec:
  "(isAuthenticated st \<longrightarrow> canSendMessage st)
   \<and> (\<not> isAuthenticated st \<longrightarrow>
        (canSendMessage st \<longleftrightarrow> anonymousMessageCount st < ANONYMOUS_MESSAGE_LIMIT))
   \<and> (provider_state st \<and> isAnonymous st \<longrightarrow>
        (canSendMessage st \<longleftrightarrow> anonymousMessageCount st < ANONYMOUS_MESSAGE_LIMIT))
   \<and> ANONYMOUS_MESSAGE_LIMIT = 3"
  using provider_state_flags [of st]
  by (auto simp: canSendMessage_def ANONYMOUS_MESSAGE_LIMIT_def)

theorem canSendMessage_spec_witness:
  "canSendMessage \<lparr>user = Some \<lparr>user_id = ''u1'', email = ''ana@example.org'',
                                  created_at = ''2025-01-01''\<rparr>,
                    isAuthenticated = True, isAnonymous = False,
                    anonymousMessageCount = 0, loading = False\<rparr>
   \<and> provider_state (initialAuthState\<lparr>anonymousMessageCount := 2, loading := False\<rparr>)
   \<and> isAnonymous (initialAuthState\<lparr>anonymousMessageCount := 2, loading := False\<rparr>)
   \<and> canSendMessage (initialAuthState\<lparr>anonymousMessageCount := 2, loading := False\<rparr>)
   \<and> provider_state (initialAuthState\<lparr>anonymousMessageCount := 3, loading := False\<rparr>)
   \<and> \<not> canSendMessage (initialAuthState\<lparr>anonymousMessageCount := 3, loading := False\<rparr>)"
proof -
  let ?user = "\<lparr>user = Some \<lparr>user_id = ''u1'', email = ''ana@example.org'',
                                created_at = ''2025-01-01''\<rparr>,
               isAuthenticated = True, isAnonymous = False,
               anonymousMessageCount = 0, loading = False\<rparr>"
  let ?two = "initialAuthState\<lparr>anonymousMessageCount := 2, loading := False\<rparr>"
  let ?three = "initialAuthState\<lparr>anonymousMessageCount := 3, loading := False\<rparr>"
  have two: "provider_state ?two" and three: "provider_state ?three"
    by (rule mounted_anonymous, rule initial)+
  have anon: "isAnonymous ?two" "isAnonymous ?three"
    by (simp_all add: initialAuthState_def)
  have "isAuthenticated ?user"
    by simp
  with canSendMessage_spec [of ?user] have c1: "canSendMessage ?user"
    by blast
  from canSendMessage_spec [of ?two] have limit: "ANONYMOUS_MESSAGE_LIMIT = 3"
    by blast
  from canSendMessage_spec [of ?two] two anon(1)
  have "canSendMessage ?two \<longleftrightarrow> anonymousMessageCount ?two < ANONYMOUS_MESSAGE_LIMIT"
    by blast
  then have c2: "canSendMessage ?two"
    by (simp add: limit)
  from canSendMessage_spec [of ?three] three anon(2)
  have "canSendMessage ?three \<longleftrightarrow> anonymousMessageCount ?three < ANONYMOUS_MESSAGE_LIMIT"
    by blast
  then have c3: "\<not> canSendMessage ?three"
    by (simp add: limit)
  from c1 two anon(1) c2 three c3 show ?thesis
    by blast
qed


text \<open>One call of \<^verbatim>\<open>incrementMessageCount\<close> in an anonymous state: the count grows by
  one and the storage holds its decimal form.\<close>

lemma incrementMessageCount_anonymous:
  assumes "isAnonymous st"
  shows "incrementMessageCount (st, ls) =
           (st\<lparr>anonymousMessageCount := anonymousMessageCount st + 1\<rparr>,
            ls(MESSAGE_COUNT_KEY \<mapsto> toString (anonymousMessageCount st + 1)))"
  using assms by (simp add: incrementMessageCount_def Let_def)

lemma incrementMessageCount_not_anonymous:
  assumes "\<not> isAnonymous st"
  shows "incrementMessageCount (st, ls) = (st, ls)"
  using assms by (simp add: incrementMessageCount_def)

text \<open>\<^verbatim>\<open>onMessageSent\<close>, which the page binds to \<^verbatim>\<open>incrementMessageCount\<close>, is called
  exactly for the sends whose stream did not throw.\<close>

lemma onMessageSent_iff_completed:
  "MessageSent \<in> set (sendMessage_callbacks coerce vars now_sent (events, out) st)
     \<longleftrightarrow> completed out"
proof -
  have sent: "MessageSent \<in> set (onSuccess_callbacks d)" for d
    by (simp add: onSuccess_callbacks_def)
  show ?thesis
    by (cases out)
       (simp_all add: sendMessage_callbacks_def completed_def Let_def case_prod_beta sent)
qed

text \<open>The invariant of a run, from any anonymous state whose count is within the limit.\<close>

lemma run_sends_invariant:
  assumes "isAnonymous st" and "\<not> isAuthenticated st"
    and "0 \<le> anonymousMessageCount st" and "anonymousMessageCount st \<le> 3"
    and "run_sends rs (st, ls) = (n, st', ls')"
  shows "anonymousMessageCount st' = anonymousMessageCount st + int n
       \<and> anonymousMessageCount st' \<le> 3
       \<and> isAnonymous st' \<and> \<not> isAuthenticated st'
       \<and> int n = min (int (length (filter completed rs)))
                      (3 - anonymousMessageCount st)
       \<and> ls' MESSAGE_COUNT_KEY =
           (if n = 0 then ls MESSAGE_COUNT_KEY
            else Some (toString (anonymousMessageCount st')))"
  using assms
proof (induction rs arbitrary: st ls n)
  case Nil
  then show ?case by simp
next
  case (Cons r rs)
  show ?case
  proof (cases "canSendMessage st \<and> completed r")
    case False
    then have step: "handleSendMessage r (st, ls) = (False, st, ls)"
      by (auto simp: handleSendMessage_def)
    with Cons.prems(5) have rest: "run_sends rs (st, ls) = (n, st', ls')"
      by (simp split: prod.splits)
    have full: "\<not> canSendMessage st \<Longrightarrow> anonymousMessageCount st = 3"
      using Cons.prems(2,4)
      by (simp add: canSendMessage_def ANONYMOUS_MESSAGE_LIMIT_def)
    from Cons.IH [OF Cons.prems(1-4) rest] False full show ?thesis
      by auto
  next
    case True
    then have can: "canSendMessage st" and r: "completed r" by simp_all
    from can Cons.prems(2) have lt: "anonymousMessageCount st < 3"
      by (simp add: canSendMessage_def ANONYMOUS_MESSAGE_LIMIT_def)
    define st1 where "st1 = st\<lparr>anonymousMessageCount := anonymousMessageCount st + 1\<rparr>"
    define ls1 where "ls1 = ls(MESSAGE_COUNT_KEY \<mapsto> toString (anonymousMessageCount st + 1))"
    have step: "handleSendMessage r (st, ls) = (True, st1, ls1)"
      using can r Cons.prems(1)
      by (simp add: handleSendMessage_def incrementMessageCount_anonymous st1_def ls1_def)
    obtain m where rest: "run_sends rs (st1, ls1) = (m, st', ls')" and n: "n = Suc m"
      using Cons.prems(5) step by (auto split: prod.splits)
    have pre: "isAnonymous st1" "\<not> isAuthenticated st1"
      "0 \<le> anonymousMessageCount st1" "anonymousMessageCount st1 \<le> 3"
      using Cons.prems(1-3) lt by (simp_all add: st1_def)
    have cnt1: "anonymousMessageCount st1 = anonymousMessageCount st + 1"
      by (simp add: st1_def)
    have key1: "ls1 MESSAGE_COUNT_KEY = Some (toString (anonymousMessageCount st1))"
      by (simp add: ls1_def st1_def)
    from Cons.IH [OF pre rest] show ?thesis
      using n r cnt1 key1 by auto
  qed
qed

text \<open>
  C4. A call of \<^verbatim>\<open>incrementMessageCount\<close> in an anonymous state adds exactly one to
  the count and writes the new count to \<^verbatim>\<open>localStorage\<close>. Starting from an anonymous
  state with \<^verbatim>\<open>anonymousMessageCount = 0\<close>, after any sequence of send attempts the
  count equals the number \<open>n\<close> of sends that completed, the storage holds that number
  (once a send has completed), the count is at most the limit 3, and the state is still
  anonymous. The number of completed sends is the number of attempts whose stream
  ended without throwing, cut off at 3: the gate refuses every later attempt.
\<close>

theorem anonymous_count_equals_completed_sends:
  assumes "isAnonymous st" and "\<not> isAuthenticated st"
    and "anonymousMessageCount st = 0"
    and "run_sends rs (st, ls) = (n, st', ls')"
  shows "(\<forall>s l. isAnonymous s \<longrightarrow>
            incrementMessageCount (s, l) =
              (s\<lparr>anonymousMessageCount := anonymousMessageCount s + 1\<rparr>,
               l(MESSAGE_COUNT_KEY \<mapsto> toString (anonymousMessageCount s + 1))))
       \<and> anonymousMessageCount st' = int n
       \<and> anonymousMessageCount st' \<le> ANONYMOUS_MESSAGE_LIMIT
       \<and> isAnonymous st' \<and> \<not> isAuthenticated st'
       \<and> n = min (length (filter completed rs)) 3
       \<and> ls' MESSAGE_COUNT_KEY =
           (if n = 0 then ls MESSAGE_COUNT_KEY else Some (toString (int n)))"
proof -
  have "0 \<le> anonymousMessageCount st" "anonymousMessageCount st \<le> 3"
    using assms(3) by simp_all
  from run_sends_invariant [OF assms(1,2) this assms(4)] assms(3)
  have inv: "anonymousMessageCount st' = int n" "anonymousMessageCount st' \<le> 3"
    "isAnonymous st'" "\<not> isAuthenticated st'"
    "int n = min (int (length (filter completed rs))) 3"
    "ls' MESSAGE_COUNT_KEY =
       (if n = 0 then ls MESSAGE_COUNT_KEY else Some (toString (anonymousMessageCount st')))"
    by simp_all
  from inv(5) have "int n = int (min (length (filter completed rs)) 3)"
    by simp
  then have n: "n = min (length (filter completed rs)) 3"
    by (simp only: of_nat_eq_iff)
  have key: "ls' MESSAGE_COUNT_KEY =
      (if n = 0 then ls MESSAGE_COUNT_KEY else Some (toString (int n)))"
    using inv(6) by (simp only: inv(1))
  have step: "\<forall>s l. isAnonymous s \<longrightarrow>
            incrementMessageCount (s, l) =
              (s\<lparr>anonymousMessageCount := anonymousMessageCount s + 1\<rparr>,
               l(MESSAGE_COUNT_KEY \<mapsto> toString (anonymousMessageCount s + 1)))"
    by (simp add: incrementMessageCount_anonymous)
  from step inv(1-4) n key show ?thesis
    unfolding ANONYMOUS_MESSAGE_LIMIT_def by blast
qed

theorem anonymous_count_equals_completed_sends_witness:
  "run_sends [ReturnedAtDone, Threw ReadFailed, ReturnedAtEnd, ReturnedAtDone, ReturnedAtDone]
     (initialAuthState, Map.empty) =
     (3, initialAuthState\<lparr>anonymousMessageCount := 3\<rparr>, [MESSAGE_COUNT_KEY \<mapsto> ''3''])
   \<and> anonymousMessageCount (initialAuthState\<lparr>anonymousMessageCount := 3\<rparr>) = int 3
   \<and> anonymousMessageCount (initialAuthState\<lparr>anonymousMessageCount := 3\<rparr>)
       \<le> ANONYMOUS_MESSAGE_LIMIT"
proof -
  have run: "run_sends [ReturnedAtDone, Threw ReadFailed, ReturnedAtEnd, ReturnedAtDone, ReturnedAtDone]
     (initialAuthState, Map.empty) =
     (3, initialAuthState\<lparr>anonymousMessageCount := 3\<rparr>, [MESSAGE_COUNT_KEY \<mapsto> ''3''])"
    by (simp add: handleSendMessage_def completed_def canSendMessage_def
        incrementMessageCount_def initialAuthState_def ANONYMOUS_MESSAGE_LIMIT_def
        toString_def digits_of.simps digit_char_def)
  have start: "isAnonymous initialAuthState" "\<not> isAuthenticated initialAuthState"
    "anonymousMessageCount initialAuthState = 0"
    by (simp_all add: initialAuthState_def)
  from anonymous_count_equals_completed_sends [OF start run] run show ?thesis
    by simp
qed

text \<open>Once the state is authenticated and no longer anonymous, a send is never refused
  and never counted.\<close>

lemma run_sends_authenticated:
  assumes "isAuthenticated st" and "\<not> isAnonymous st"
  shows "run_sends rs (st, ls) = (length (filter completed rs), st, ls)"
proof (induction rs)
  case Nil
  show ?case by simp
next
  case (Cons r rs)
  have "handleSendMessage r (st, ls) = (completed r, st, ls)"
    using assms
    by (simp add: handleSendMessage_def canSendMessage_def
          incrementMessageCount_not_anonymous)
  with Cons.IH show ?case by simp
qed

text \<open>
  C6. After \<^verbatim>\<open>register\<close> has resolved, the state is authenticated and not anonymous, its
  \<^verbatim>\<open>anonymousMessageCount\<close> is 0, and neither the message-count key nor the session-id
  key is in \<^verbatim>\<open>localStorage\<close>. The quota is retired: from that state on every send is
  admitted, and no send changes the count or the storage.
\<close>

theorem register_retires_anonymous_quota:
  assumes "register backend (st, ls) data = Inr (st', ls')"
  shows "isAuthenticated st' \<and> \<not> isAnonymous st' \<and> anonymousMessageCount st' = 0
       \<and> ls' MESSAGE_COUNT_KEY = None \<and> ls' SESSION_ID_KEY = None
       \<and> canSendMessage st'
       \<and> (\<forall>rs. run_sends rs (st', ls') =
                  (length (filter completed rs), st', ls'))"
proof (cases "backend (register_request st ls data)")
  case (Inl err)
  with assms show ?thesis by (simp add: register_def)
next
  case (Inr response)
  with assms have
    st': "st' = \<lparr>user = Some (resp_user response), isAuthenticated = True,
                isAnonymous = False, anonymousMessageCount = 0, loading = False\<rparr>"
    and ls': "ls' = (ls(ACCESS_TOKEN_KEY \<mapsto> access_token response))
                      (MESSAGE_COUNT_KEY := None, SESSION_ID_KEY := None)"
    by (auto simp: register_def)
  have auth: "isAuthenticated st'" and anon: "\<not> isAnonymous st'"
    and cnt: "anonymousMessageCount st' = 0"
    by (simp_all add: st')
  have keys: "ls' MESSAGE_COUNT_KEY = None" "ls' SESSION_ID_KEY = None"
    by (simp_all add: ls')
  have can: "canSendMessage st'"
    using auth by (simp add: canSendMessage_def)
  from auth anon cnt keys can run_sends_authenticated [OF auth anon]
  show ?thesis by blast
qed

theorem register_retires_anonymous_quota_witness:
  "register (\<lambda>call. Inr \<lparr>access_token = ''t0k'', token_type = ''bearer'',
                resp_user = \<lparr>user_id = ''u1'', email = ''ana@example.org'',
                              created_at = ''2025-01-01''\<rparr>\<rparr>)
     (initialAuthState\<lparr>anonymousMessageCount := 2, loading := False\<rparr>,
      [MESSAGE_COUNT_KEY \<mapsto> ''2'', SESSION_ID_KEY \<mapsto> ''s-17''])
     \<lparr>reg_email = ''ana@example.org'', reg_password = ''pw''\<rparr>
   = Inr (\<lparr>user = Some \<lparr>user_id = ''u1'', email = ''ana@example.org'',
                         created_at = ''2025-01-01''\<rparr>,
           isAuthenticated = True, isAnonymous = False, anonymousMessageCount = 0,
           loading = False\<rparr>,
          [ACCESS_TOKEN_KEY \<mapsto> ''t0k''])
   \<and> [ACCESS_TOKEN_KEY \<mapsto> ''t0k''] MESSAGE_COUNT_KEY = None
   \<and> [ACCESS_TOKEN_KEY \<mapsto> ''t0k''] SESSION_ID_KEY = None"
proof -
  have reg: "register (\<lambda>call. Inr \<lparr>access_token = ''t0k'', token_type = ''bearer'',
                resp_user = \<lparr>user_id = ''u1'', email = ''ana@example.org'',
                              created_at = ''2025-01-01''\<rparr>\<rparr>)
     (initialAuthState\<lparr>anonymousMessageCount := 2, loading := False\<rparr>,
      [MESSAGE_COUNT_KEY \<mapsto> ''2'', SESSION_ID_KEY \<mapsto> ''s-17''])
     \<lparr>reg_email = ''ana@example.org'', reg_password = ''pw''\<rparr>
   = Inr (\<lparr>user = Some \<lparr>user_id = ''u1'', email = ''ana@example.org'',
                         created_at = ''2025-01-01''\<rparr>,
           isAuthenticated = True, isAnonymous = False, anonymousMessageCount = 0,
           loading = False\<rparr>,
          [ACCESS_TOKEN_KEY \<mapsto> ''t0k''])"
    by (auto simp: register_def MESSAGE_COUNT_KEY_def SESSION_ID_KEY_def
        ACCESS_TOKEN_KEY_def fun_eq_iff)
  from register_retires_anonymous_quota [OF reg] reg show ?thesis
    by blast
qed

text \<open>
  C7. \<^verbatim>\<open>register\<close> calls the promote-anonymous endpoint, with the stored anonymous
  session id, exactly when a session id is stored (a non-empty string under the
  session-id key) and \<^verbatim>\<open>anonymousMessageCount > 0\<close>; in every other case it calls the
  plain register endpoint with the request data. The outcome of \<^verbatim>\<open>register\<close> depends on
  the backend through that one call only.
\<close>

theorem register_promotes_iff_session_and_count:
  "(\<forall>sid. getAnonymousSessionId ls = Some sid \<and> sid \<noteq> [] \<and> 0 < anonymousMessageCount st
       \<longrightarrow> register_request st ls data =
             PromoteAnonymous (reg_email data) (reg_password data) sid)
   \<and> (\<not> (\<exists>sid. getAnonymousSessionId ls = Some sid \<and> sid \<noteq> []
               \<and> 0 < anonymousMessageCount st)
       \<longrightarrow> register_request st ls data = RegisterPlain data)
   \<and> (\<forall>backend'. backend' (register_request st ls data) =
                     backend (register_request st ls data)
       \<longrightarrow> register backend' (st, ls) data = register backend (st, ls) data)"
  by (auto simp: register_request_def register_def split: option.splits)

theorem register_promotes_iff_session_and_count_witness:
  "register_request (initialAuthState\<lparr>anonymousMessageCount := 2\<rparr>)
      [SESSION_ID_KEY \<mapsto> ''s-17''] \<lparr>reg_email = ''ana@example.org'', reg_password = ''pw''\<rparr>
     = PromoteAnonymous ''ana@example.org'' ''pw'' ''s-17''
   \<and> register_request (initialAuthState\<lparr>anonymousMessageCount := 2\<rparr>)
      Map.empty \<lparr>reg_email = ''ana@example.org'', reg_password = ''pw''\<rparr>
     = RegisterPlain \<lparr>reg_email = ''ana@example.org'', reg_password = ''pw''\<rparr>
   \<and> register_request initialAuthState
      [SESSION_ID_KEY \<mapsto> ''s-17''] \<lparr>reg_email = ''ana@example.org'', reg_password = ''pw''\<rparr>
     = RegisterPlain \<lparr>reg_email = ''ana@example.org'', reg_password = ''pw''\<rparr>"
  using register_promotes_iff_session_and_count
          [of "[SESSION_ID_KEY \<mapsto> ''s-17'']" "initialAuthState\<lparr>anonymousMessageCount := 2\<rparr>"
              "\<lparr>reg_email = ''ana@example.org'', reg_password = ''pw''\<rparr>"]
        register_promotes_iff_session_and_count
          [of "Map.empty" "initialAuthState\<lparr>anonymousMessageCount := 2\<rparr>"
              "\<lparr>reg_email = ''ana@example.org'', reg_password = ''pw''\<rparr>"]
        register_promotes_iff_session_and_count
          [of "[SESSION_ID_KEY \<mapsto> ''s-17'']" "initialAuthState"
              "\<lparr>reg_email = ''ana@example.org'', reg_password = ''pw''\<rparr>"]
  by (simp add: getAnonymousSessionId_def initialAuthState_def)

section \<open>Properties of the event stream\<close>

text \<open>The inner loop on a list of lines put together from two parts.\<close>

lemma forLines_append:
  "forLines parse (xs @ ys) =
     (case forLines parse xs of
        (evs, True) \<Rightarrow> (evs, True)
      | (evs, False) \<Rightarrow> (case forLines parse ys of (evs', r) \<Rightarrow> (evs @ evs', r)))"
  by (induction xs) (auto split: line_result.splits prod.splits bool.splits)

text \<open>
  The two nested loops visit the lines of the first chunk, then those of the second,
  and so on, and keep nothing between chunks: they do what one loop over all these
  lines does.
\<close>

lemma readLoop_lines:
  "readLoop parse chunks e =
     (case forLines parse (concat (map split_lines chunks)) of
        (evs, returned) \<Rightarrow> (evs, if returned then ReturnedAtDone else end_of_reads e))"
  by (induction chunks) (auto simp: forLines_append split: prod.splits bool.splits)

lemma startsWith_data_trim:
  assumes "startsWith line ''data: ''"
  shows "trim line \<noteq> []"
proof -
  from assms obtain rest where line: "line = CHR ''d'' # rest"
    by (cases line) (auto simp: startsWith_def)
  have nws: "\<not> js_whitespace (CHR ''d'')"
    by (simp add: js_whitespace_def)
  then have "dropWhile js_whitespace line = line"
    by (simp add: line)
  moreover have "dropWhile js_whitespace (rev line) \<noteq> []"
    using nws by (auto simp: line dropWhile_eq_Nil_conv)
  ultimately show ?thesis
    by (simp add: trim_def)
qed

lemma processLine_done:
  assumes "startsWith line ''data: ''" and "trim (drop 6 line) = ''[DONE]''"
  shows "processLine parse line = Return"
  using assms startsWith_data_trim [OF assms(1)] by (simp add: processLine_def)

lemma processLine_malformed:
  assumes "startsWith line ''data: ''" and "trim (drop 6 line) \<noteq> ''[DONE]''"
    and "parse (trim (drop 6 line)) = None"
  shows "processLine parse line = Skip"
  using assms by (simp add: processLine_def Let_def)

lemma forLines_skip:
  assumes "processLine parse line = Skip"
  shows "forLines parse (before @ line # after) = forLines parse (before @ after)"
  using assms by (simp add: forLines_append split: prod.splits bool.splits)

lemma forLines_return:
  assumes "processLine parse line = Return"
  shows "forLines parse (before @ line # after) = (fst (forLines parse before), True)"
  using assms by (auto simp: forLines_append split: prod.splits bool.splits)

text \<open>
  Chunk boundaries at the end of a line do no harm: when every chunk is empty or ends
  with a line feed, the generator does what it does when the whole body arrives as one
  chunk. (A boundary adds one empty line, which is skipped.)
\<close>

lemma split_lines_not_empty [simp]: "split_lines s \<noteq> []"
  by (induction s) (auto split: list.splits)

lemma split_lines_append_LF:
  "split_lines (a @ CHR 0x0A # b) = split_lines a @ split_lines b"
proof (induction a)
  case Nil
  show ?case by simp
next
  case (Cons c a)
  obtain l ls where sl: "split_lines a = l # ls"
    by (cases "split_lines a") simp_all
  show ?case
    by (simp add: Cons.IH sl)
qed

lemma processLine_empty: "processLine parse [] = Skip"
  by (simp add: processLine_def trim_def)

lemma forLines_cong_tail:
  assumes "forLines parse ys = forLines parse zs"
  shows "forLines parse (xs @ ys) = forLines parse (xs @ zs)"
  by (simp only: forLines_append assms)

lemma forLines_line_aligned:
  assumes "\<forall>c \<in> set chunks. c = [] \<or> last c = CHR 0x0A"
  shows "forLines parse (concat (map split_lines chunks)) =
         forLines parse (split_lines (concat chunks))"
  using assms
proof (induction chunks)
  case Nil
  show ?case by (simp add: processLine_empty)
next
  case (Cons c cs)
  then have IH: "forLines parse (concat (map split_lines cs)) =
         forLines parse (split_lines (concat cs))"
    by simp
  show ?case
  proof (cases "c = []")
    case True
    then show ?thesis
      by (simp add: processLine_empty IH)
  next
    case False
    with Cons.prems have "last c = CHR 0x0A" by simp
    with False obtain a where c: "c = a @ [CHR 0x0A]"
      by (metis append_butlast_last_id)
    have "forLines parse (concat (map split_lines (c # cs))) =
          forLines parse (split_lines a @ [] # concat (map split_lines cs))"
      using split_lines_append_LF [of a "[]"] by (simp add: c)
    also have "\<dots> = forLines parse (split_lines a @ concat (map split_lines cs))"
      by (rule forLines_skip) (rule processLine_empty)
    also have "\<dots> = forLines parse (split_lines a @ split_lines (concat cs))"
      using IH by (rule forLines_cong_tail)
    also have "\<dots> = forLines parse (split_lines (concat (c # cs)))"
      by (simp add: c split_lines_append_LF)
    finally show ?thesis .
  qed
qed

lemma readLoop_line_aligned:
  assumes "\<forall>c \<in> set chunks. c = [] \<or> last c = CHR 0x0A"
  shows "readLoop parse chunks e = readLoop parse [concat chunks] e"
  using forLines_line_aligned [OF assms, of parse]
  by (simp add: readLoop_lines)

text \<open>
  A boundary inside a frame's line does harm. When the first part of the line still
  starts with \<^verbatim>\<open>data: \<close> but its payload does not parse, and the second part does not
  start with \<^verbatim>\<open>data: \<close>, both parts are skipped and the frame gives no event, whatever
  \<^verbatim>\<open>JSON.parse\<close> would have made of the whole payload.
\<close>

lemma split_lines_no_LF:
  assumes "CHR 0x0A \<notin> set s"
  shows "split_lines s = [s]"
  using assms by (induction s) auto

lemma processLine_not_data:
  assumes "\<not> startsWith line ''data: ''"
  shows "processLine parse line = Skip"
  using assms by (simp add: processLine_def)

lemma frame_cut_in_two_yields_nothing:
  assumes "CHR 0x0A \<notin> set p1" and "CHR 0x0A \<notin> set p2"
    and "startsWith p1 ''data: ''"
    and "trim (drop 6 p1) \<noteq> ''[DONE]''"
    and "parse (trim (drop 6 p1)) = None"
    and "\<not> startsWith p2 ''data: ''"
  shows "readLoop parse [p1, p2 @ [CHR 0x0A, CHR 0x0A]] e = ([], end_of_reads e)"
proof -
  have l1: "split_lines p1 = [p1]"
    using assms(1) by (rule split_lines_no_LF)
  have "split_lines (p2 @ CHR 0x0A # [CHR 0x0A]) = split_lines p2 @ split_lines [CHR 0x0A]"
    by (rule split_lines_append_LF)
  then have l2: "split_lines (p2 @ [CHR 0x0A, CHR 0x0A]) = [p2, [], []]"
    using split_lines_no_LF [OF assms(2)] by simp
  have s1: "processLine parse p1 = Skip"
    using assms(3-5) by (rule processLine_malformed)
  have s2: "processLine parse p2 = Skip"
    using assms(6) by (rule processLine_not_data)
  show ?thesis
    by (simp add: l1 l2 s1 s2 processLine_empty)
qed


text \<open>
  C1. The specification asks that, however the body is cut into chunks, every
  well-formed frame gives exactly one event. The code splits every chunk into lines by itself and carries no
  rest of a line over to the next chunk, so a frame whose line is cut by a chunk
  boundary gives no event: its first part does not parse, its second part does not
  start with \<^verbatim>\<open>data: \<close>. The same bytes, one content frame and the end marker, are
  delivered twice below: with the frame inside one chunk its event is yielded; with
  the boundary inside the frame nothing is yielded.
\<close>

theorem streamMessage_drops_frame_cut_by_chunk_boundary:
  \<open>streamMessage JSON_parse
     (FetchResolved \<lparr>ok = True, status = 200, body = Some
        ([''data: {"type": "content", "data": "Hello"}'' @ [CHR 0x0A, CHR 0x0A],
          ''data: [DONE]'' @ [CHR 0x0A, CHR 0x0A]], EndOfBody)\<rparr>)
     = ([ContentEvent (JStr ''Hello'')], ReturnedAtDone)
   \<and> streamMessage JSON_parse
     (FetchResolved \<lparr>ok = True, status = 200, body = Some
        ([''data: {"type": "con'',
          ''tent", "data": "Hello"}'' @ [CHR 0x0A, CHR 0x0A],
          ''data: [DONE]'' @ [CHR 0x0A, CHR 0x0A]], EndOfBody)\<rparr>)
     = ([], ReturnedAtDone)\<close>
  by code_simp

text \<open>
  A line that lies whole within one read, starts with \<^verbatim>\<open>data: \<close> and has a payload that
  is not the end marker and is not valid JSON is skipped: it yields nothing, nothing is
  thrown because of it, and the generator goes on with the lines after it. The events
  and the outcome of the whole stream are those of the lines before and after it. This
  holds for every \<^verbatim>\<open>JSON.parse\<close>.
\<close>

lemma malformed_line_skipped_within_one_read:
  assumes "concat (map split_lines chunks) = before @ line # after"
    and "startsWith line ''data: ''"
    and "trim (drop 6 line) \<noteq> ''[DONE]''"
    and "parse (trim (drop 6 line)) = None"
  shows "processLine parse line = Skip
       \<and> streamMessage parse
           (FetchResolved \<lparr>ok = True, status = code, body = Some (chunks, e)\<rparr>) =
         (case forLines parse (before @ after) of
            (evs, returned) \<Rightarrow>
              (evs, if returned then ReturnedAtDone else end_of_reads e))"
proof -
  have skip: "processLine parse line = Skip"
    using assms(2-4) by (rule processLine_malformed)
  have "streamMessage parse
           (FetchResolved \<lparr>ok = True, status = code, body = Some (chunks, e)\<rparr>) =
        readLoop parse chunks e"
    by (simp add: streamMessage_def)
  also have "\<dots> = (case forLines parse (before @ line # after) of
            (evs, returned) \<Rightarrow>
              (evs, if returned then ReturnedAtDone else end_of_reads e))"
    by (simp only: readLoop_lines assms(1))
  also have "forLines parse (before @ line # after) = forLines parse (before @ after)"
    using skip by (rule forLines_skip)
  finally show ?thesis
    using skip by simp
qed

lemma malformed_line_skipped_within_one_read_example:
  \<open>concat (map split_lines
      [''data: {"type": "content", "data": "Hel"}'' @ [CHR 0x0A, CHR 0x0A]
         @ ''data: {"type": "cont'' @ [CHR 0x0A, CHR 0x0A],
       ''data: {"type": "content", "data": "lo"}'' @ [CHR 0x0A, CHR 0x0A]])
     = [''data: {"type": "content", "data": "Hel"}'', ''''] @
       ''data: {"type": "cont'' #
       ['''', '''', ''data: {"type": "content", "data": "lo"}'', '''', '''']
   \<and> startsWith ''data: {"type": "cont'' ''data: ''
   \<and> trim (drop 6 ''data: {"type": "cont'') \<noteq> ''[DONE]''
   \<and> JSON_parse (trim (drop 6 ''data: {"type": "cont'')) = None
   \<and> processLine JSON_parse ''data: {"type": "cont'' = Skip
   \<and> streamMessage JSON_parse
       (FetchResolved \<lparr>ok = True, status = 200, body = Some
          ([''data: {"type": "content", "data": "Hel"}'' @ [CHR 0x0A, CHR 0x0A]
              @ ''data: {"type": "cont'' @ [CHR 0x0A, CHR 0x0A],
            ''data: {"type": "content", "data": "lo"}'' @ [CHR 0x0A, CHR 0x0A]],
           EndOfBody)\<rparr>)
     = ([ContentEvent (JStr ''Hel''), ContentEvent (JStr ''lo'')], ReturnedAtEnd)\<close>
proof -
  have h1: \<open>concat (map split_lines
      [''data: {"type": "content", "data": "Hel"}'' @ [CHR 0x0A, CHR 0x0A]
         @ ''data: {"type": "cont'' @ [CHR 0x0A, CHR 0x0A],
       ''data: {"type": "content", "data": "lo"}'' @ [CHR 0x0A, CHR 0x0A]])
     = [''data: {"type": "content", "data": "Hel"}'', ''''] @
       ''data: {"type": "cont'' #
       ['''', '''', ''data: {"type": "content", "data": "lo"}'', '''', '''']\<close>
    by code_simp
  have h2: \<open>startsWith ''data: {"type": "cont'' ''data: ''\<close>
    by code_simp
  have h3: \<open>trim (drop 6 ''data: {"type": "cont'') \<noteq> ''[DONE]''\<close>
    by code_simp
  have h4: \<open>JSON_parse (trim (drop 6 ''data: {"type": "cont'')) = None\<close>
    by code_simp
  have rest: \<open>(case forLines JSON_parse
        ([''data: {"type": "content", "data": "Hel"}'', ''''] @
         ['''', '''', ''data: {"type": "content", "data": "lo"}'', '''', ''''])
      of (evs, returned) \<Rightarrow>
        (evs, if returned then ReturnedAtDone else end_of_reads EndOfBody))
     = ([ContentEvent (JStr ''Hel''), ContentEvent (JStr ''lo'')], ReturnedAtEnd)\<close>
    by code_simp
  from malformed_line_skipped_within_one_read
    [where parse = JSON_parse and code = 200 and e = EndOfBody, OF h1 h2 h3 h4]
    h1 h2 h3 h4 rest
  show ?thesis
    by (simp only: simp_thms)
qed

text \<open>
  When the lines the generator goes through contain a \<^verbatim>\<open>data: \<close> line whose payload is
  \<^verbatim>\<open>[DONE]\<close>, a line that lies whole within one read, the generator returns there: the
  events of the stream are those of the lines before that line and nothing else,
  whatever comes after the marker in the same chunk or in later chunks, and however
  the body would have ended.
\<close>

lemma done_line_ends_stream_within_one_read:
  assumes "concat (map split_lines chunks) = before @ line # after"
    and "startsWith line ''data: ''"
    and "trim (drop 6 line) = ''[DONE]''"
  shows "streamMessage parse
           (FetchResolved \<lparr>ok = True, status = code, body = Some (chunks, e)\<rparr>) =
         (fst (forLines parse before), ReturnedAtDone)"
proof -
  have ret: "processLine parse line = Return"
    using assms(2,3) by (rule processLine_done)
  have "streamMessage parse
           (FetchResolved \<lparr>ok = True, status = code, body = Some (chunks, e)\<rparr>) =
        readLoop parse chunks e"
    by (simp add: streamMessage_def)
  also have "\<dots> = (case forLines parse (before @ line # after) of
            (evs, returned) \<Rightarrow>
              (evs, if returned then ReturnedAtDone else end_of_reads e))"
    by (simp only: readLoop_lines assms(1))
  also have "\<dots> = (fst (forLines parse before), ReturnedAtDone)"
    by (simp add: forLines_return [OF ret])
  finally show ?thesis .
qed

lemma done_line_ends_stream_within_one_read_example:
  \<open>concat (map split_lines
      [''data: {"type": "content", "data": "Hi"}'' @ [CHR 0x0A, CHR 0x0A]
         @ ''data: [DONE]'' @ [CHR 0x0A, CHR 0x0A]
         @ ''data: {"type": "content", "data": "late"}'' @ [CHR 0x0A, CHR 0x0A],
       ''data: {"type": "content", "data": "later"}'' @ [CHR 0x0A, CHR 0x0A]])
     = [''data: {"type": "content", "data": "Hi"}'', ''''] @
       ''data: [DONE]'' #
       ['''', ''data: {"type": "content", "data": "late"}'', '''', '''',
        ''data: {"type": "content", "data": "later"}'', '''', '''']
   \<and> startsWith ''data: [DONE]'' ''data: ''
   \<and> trim (drop 6 ''data: [DONE]'') = ''[DONE]''
   \<and> streamMessage JSON_parse
       (FetchResolved \<lparr>ok = True, status = 200, body = Some
          ([''data: {"type": "content", "data": "Hi"}'' @ [CHR 0x0A, CHR 0x0A]
              @ ''data: [DONE]'' @ [CHR 0x0A, CHR 0x0A]
              @ ''data: {"type": "content", "data": "late"}'' @ [CHR 0x0A, CHR 0x0A],
            ''data: {"type": "content", "data": "later"}'' @ [CHR 0x0A, CHR 0x0A]],
           ReadError)\<rparr>)
     = ([ContentEvent (JStr ''Hi'')], ReturnedAtDone)\<close>
proof -
  have h1: \<open>concat (map split_lines
      [''data: {"type": "content", "data": "Hi"}'' @ [CHR 0x0A, CHR 0x0A]
         @ ''data: [DONE]'' @ [CHR 0x0A, CHR 0x0A]
         @ ''data: {"type": "content", "data": "late"}'' @ [CHR 0x0A, CHR 0x0A],
       ''data: {"type": "content", "data": "later"}'' @ [CHR 0x0A, CHR 0x0A]])
     = [''data: {"type": "content", "data": "Hi"}'', ''''] @
       ''data: [DONE]'' #
       ['''', ''data: {"type": "content", "data": "late"}'', '''', '''',
        ''data: {"type": "content", "data": "later"}'', '''', '''']\<close>
    by code_simp
  have h2: \<open>startsWith ''data: [DONE]'' ''data: ''\<close>
    by code_simp
  have h3: \<open>trim (drop 6 ''data: [DONE]'') = ''[DONE]''\<close>
    by code_simp
  have before: \<open>fst (forLines JSON_parse
        [''data: {"type": "content", "data": "Hi"}'', ''''])
     = [ContentEvent (JStr ''Hi'')]\<close>
    by code_simp
  from done_line_ends_stream_within_one_read
    [where parse = JSON_parse and code = 200 and e = ReadError, OF h1 h2 h3]
    h1 h2 h3 before
  show ?thesis
    by (simp only: simp_thms)
qed

text \<open>
  C2. The specification asks that a \<^verbatim>\<open>data: \<close> line of the event stream whose payload
  is not valid JSON is skipped without throwing, and that the frames after it still
  yield their events. The code does so for a line that lies within one read (above). It
  keeps no rest of a line between reads, so a malformed line that a chunk boundary
  cuts is judged by its parts. Two bodies, each delivered twice: in the first the
  payload has one closing brace too many; as one chunk the line is skipped and the
  next frame is yielded, but cut before the last brace its first part parses and
  yields an event of its own. In the second the payload is \<^verbatim>\<open>[DONE]x\<close>; as one chunk
  the line is skipped, but cut after the bracket its first part is taken for the end
  marker: the generator returns and the next frame is lost.
\<close>

theorem malformed_line_cut_by_chunk_boundary_not_skipped:
  \<open>streamMessage JSON_parse
     (FetchResolved \<lparr>ok = True, status = 200, body = Some
        ([''data: {"type": "content", "data": "x"}}'' @ [CHR 0x0A, CHR 0x0A]
            @ ''data: {"type": "content", "data": "ok"}'' @ [CHR 0x0A, CHR 0x0A]],
         EndOfBody)\<rparr>)
     = ([ContentEvent (JStr ''ok'')], ReturnedAtEnd)
   \<and> streamMessage JSON_parse
     (FetchResolved \<lparr>ok = True, status = 200, body = Some
        ([''data: {"type": "content", "data": "x"}'',
          ''}'' @ [CHR 0x0A, CHR 0x0A]
            @ ''data: {"type": "content", "data": "ok"}'' @ [CHR 0x0A, CHR 0x0A]],
         EndOfBody)\<rparr>)
     = ([ContentEvent (JStr ''x''), ContentEvent (JStr ''ok'')], ReturnedAtEnd)
   \<and> streamMessage JSON_parse
     (FetchResolved \<lparr>ok = True, status = 200, body = Some
        ([''data: [DONE]x'' @ [CHR 0x0A, CHR 0x0A]
            @ ''data: {"type": "content", "data": "ok"}'' @ [CHR 0x0A, CHR 0x0A]],
         EndOfBody)\<rparr>)
     = ([ContentEvent (JStr ''ok'')], ReturnedAtEnd)
   \<and> streamMessage JSON_parse
     (FetchResolved \<lparr>ok = True, status = 200, body = Some
        ([''data: [DONE]'',
          ''x'' @ [CHR 0x0A, CHR 0x0A]
            @ ''data: {"type": "content", "data": "ok"}'' @ [CHR 0x0A, CHR 0x0A]],
         EndOfBody)\<rparr>)
     = ([], ReturnedAtDone)\<close>
  by code_simp

text \<open>
  C8. The specification asks that the generator returns at the frame whose payload is
  \<^verbatim>\<open>[DONE]\<close> and yields nothing after it, whatever is left in the body. The code does so
  when the marker line lies within one read (above). A marker line that a chunk boundary
  cuts is not recognised: its first part does not parse and is skipped, its second
  part does not start with \<^verbatim>\<open>data: \<close>. The same bytes delivered twice: as one chunk
  the generator returns at the marker; cut inside the marker it goes on and yields the
  frame behind it.
\<close>

theorem done_marker_cut_by_chunk_boundary_missed:
  \<open>streamMessage JSON_parse
     (FetchResolved \<lparr>ok = True, status = 200, body = Some
        ([''data: {"type": "content", "data": "Hi"}'' @ [CHR 0x0A, CHR 0x0A]
            @ ''data: [DONE]'' @ [CHR 0x0A, CHR 0x0A]
            @ ''data: {"type": "content", "data": "late"}'' @ [CHR 0x0A, CHR 0x0A]],
         EndOfBody)\<rparr>)
     = ([ContentEvent (JStr ''Hi'')], ReturnedAtDone)
   \<and> streamMessage JSON_parse
     (FetchResolved \<lparr>ok = True, status = 200, body = Some
        ([''data: {"type": "content", "data": "Hi"}'' @ [CHR 0x0A, CHR 0x0A]
            @ ''data: [DO'',
          ''NE]'' @ [CHR 0x0A, CHR 0x0A]
            @ ''data: {"type": "content", "data": "late"}'' @ [CHR 0x0A, CHR 0x0A]],
         EndOfBody)\<rparr>)
     = ([ContentEvent (JStr ''Hi''), ContentEvent (JStr ''late'')], ReturnedAtEnd)\<close>
  by code_simp

section \<open>Properties of the chat hook\<close>

text \<open>Consuming the events of a stream changes the streamed text and the metadata,
  never the message list.\<close>

lemma consume_event_messages:
  "messages (fst (consume_event coerce ev s)) = messages (fst s)"
  by (cases s; cases ev) (simp_all add: consume_event_def)

lemma consume_event_text:
  "fst (snd (consume_event coerce ev s)) = fst (snd s) @ streamed_text coerce [ev]"
  by (cases s; cases ev) (simp_all add: consume_event_def streamed_text_def)

lemma consume_events_length [simp]:
  "length (consume_events coerce events s) = length events"
  by (induction events arbitrary: s) simp_all

lemma consume_events_messages:
  "s' \<in> set (consume_events coerce events s) \<Longrightarrow> messages (fst s') = messages (fst s)"
proof (induction events arbitrary: s)
  case Nil
  then show ?case by simp
next
  case (Cons ev events)
  from Cons.prems consider "s' = consume_event coerce ev s"
    | "s' \<in> set (consume_events coerce events (consume_event coerce ev s))"
    by auto
  then show ?case
  proof cases
    case 1
    then show ?thesis by (simp only: consume_event_messages)
  next
    case 2
    then have "messages (fst s') = messages (fst (consume_event coerce ev s))"
      by (rule Cons.IH)
    then show ?thesis by (simp only: consume_event_messages)
  qed
qed

lemma consume_events_last_text:
  "fst (snd (last (s # consume_events coerce events s))) = fst (snd s) @ streamed_text coerce events"
proof (induction events arbitrary: s)
  case Nil
  show ?case by (simp add: streamed_text_def)
next
  case (Cons ev events)
  have "fst (snd (last (s # consume_events coerce (ev # events) s))) =
        fst (snd (last (consume_event coerce ev s # consume_events coerce events (consume_event coerce ev s))))"
    by simp
  also have "\<dots> = fst (snd (consume_event coerce ev s)) @ streamed_text coerce events"
    by (rule Cons.IH)
  finally show ?case
    by (simp add: consume_event_text streamed_text_def)
qed

lemma consume_events_last_messages:
  "messages (fst (last (s # consume_events coerce events s))) = messages (fst s)"
proof (cases "consume_events coerce events s = []")
  case True
  then show ?thesis by simp
next
  case False
  then have "last (s # consume_events coerce events s) \<in> set (consume_events coerce events s)"
    by simp
  then show ?thesis by (rule consume_events_messages)
qed

text \<open>
  C5, as the code has it. The hook states of one send, in the order they arise: in the
  first, before any event of the stream is consumed, the user message is the last of
  the list; it stays so while the events are consumed; the last state adds one
  assistant message. When the generator ended without throwing, at the \<^verbatim>\<open>[DONE]\<close> marker
  or at the end of the response body, that message carries the text streamed up to
  there; when it threw, the message is the fixed apology of \<^verbatim>\<open>onError\<close> and the streamed
  text is dropped.
\<close>

theorem assistant_message_appended_after_stream_ended:
  "length (sendMessage coerce vars now_sent now_settled (events, out) st) = length events + 2
   \<and> (\<forall>i. i \<le> length events \<longrightarrow>
          messages (sendMessage coerce vars now_sent now_settled (events, out) st ! i) =
          messages st @ [userMessage vars now_sent])
   \<and> messages (last (sendMessage coerce vars now_sent now_settled (events, out) st)) =
       messages st @ [userMessage vars now_sent,
                      (case out of
                         Threw err \<Rightarrow> errorMessage now_settled
                       | _ \<Rightarrow> streamed_reply coerce events now_settled)]"
proof -
  define s0 :: loop_state where "s0 = (begin_send vars now_sent st, [], initial_metadata)"
  define steps where "steps = consume_events coerce events s0"
  define final where "final =
     (case last (s0 # steps) of
           (st1, fullResponse, metadata) \<Rightarrow>
             (case out of
                Threw err \<Rightarrow> onError now_settled st1
              | _ \<Rightarrow> onSuccess (send_data vars fullResponse metadata) now_settled st1))"
  have tr: "sendMessage coerce vars now_sent now_settled (events, out) st =
              map fst (s0 # steps) @ [final]"
    by (simp add: sendMessage_def Let_def s0_def steps_def final_def)
  have len: "length steps = length events"
    by (simp add: steps_def)
  have m0: "messages (fst s0) = messages st @ [userMessage vars now_sent]"
    by (simp add: s0_def begin_send_def)
  have during: "messages (fst s) = messages st @ [userMessage vars now_sent]"
    if "s \<in> set (s0 # steps)" for s
    using that m0 consume_events_messages [of s coerce events s0]
    by (auto simp: steps_def)
  have part2: "messages ((map fst (s0 # steps) @ [final]) ! i) =
          messages st @ [userMessage vars now_sent]" if "i \<le> length events" for i
  proof -
    from that len have lt: "i < length (s0 # steps)" by simp
    then have "(map fst (s0 # steps) @ [final]) ! i = fst ((s0 # steps) ! i)"
      by (simp only: nth_append length_map if_True nth_map)
    moreover from lt have "(s0 # steps) ! i \<in> set (s0 # steps)"
      by (rule nth_mem)
    ultimately show ?thesis using during by simp
  qed
  obtain st1 fullResponse metadata where l: "last (s0 # steps) = (st1, fullResponse, metadata)"
    by (cases "last (s0 # steps)") auto
  have st1: "messages st1 = messages st @ [userMessage vars now_sent]"
    using consume_events_last_messages [of s0 coerce events] m0 l
    by (simp add: steps_def)
  have fr: "fullResponse = streamed_text coerce events"
    using consume_events_last_text [of s0 coerce events] l
    by (simp add: steps_def s0_def)
  have part3: "messages final = messages st @ [userMessage vars now_sent,
                      (case out of
                         Threw err \<Rightarrow> errorMessage now_settled
                       | _ \<Rightarrow> streamed_reply coerce events now_settled)]"
  proof -
    have final': "final =
        (case out of
           Threw err \<Rightarrow> onError now_settled st1
         | _ \<Rightarrow> onSuccess (send_data vars fullResponse metadata) now_settled st1)"
      by (simp only: final_def l prod.case)
    show ?thesis
      by (cases out)
         (simp_all add: final' onError_def onSuccess_def Let_def st1 fr
            assistantMessage_def send_data_def streamed_reply_def)
  qed
  show ?thesis
    using len part2 part3 by (simp add: tr)
qed

theorem assistant_message_appended_after_stream_ended_witness:
  "length (sendMessage (\<lambda>v. []) \<lparr>vars_message = ''Hi?'', vars_sessionId = None\<rparr>
             ''2025-01-01T10:00:00.000Z'' ''2025-01-01T10:00:02.000Z''
             ([ContentEvent (JStr ''Hel''), MetadataEvent (JObj [(''session_id'', JStr ''s1'')]),
               ContentEvent (JStr ''lo'')], ReturnedAtDone)
             \<lparr>messages = [], sources = Map.empty, streamingContent = [], isStreaming = False\<rparr>)
     = 5
   \<and> messages (sendMessage (\<lambda>v. []) \<lparr>vars_message = ''Hi?'', vars_sessionId = None\<rparr>
             ''2025-01-01T10:00:00.000Z'' ''2025-01-01T10:00:02.000Z''
             ([ContentEvent (JStr ''Hel''), MetadataEvent (JObj [(''session_id'', JStr ''s1'')]),
               ContentEvent (JStr ''lo'')], ReturnedAtDone)
             \<lparr>messages = [], sources = Map.empty, streamingContent = [], isStreaming = False\<rparr>
           ! 3)
     = [\<lparr>role = UserRole, content = ''Hi?'', timestamp = ''2025-01-01T10:00:00.000Z'', message_sources = None\<rparr>]
   \<and> messages (last (sendMessage (\<lambda>v. []) \<lparr>vars_message = ''Hi?'', vars_sessionId = None\<rparr>
             ''2025-01-01T10:00:00.000Z'' ''2025-01-01T10:00:02.000Z''
             ([ContentEvent (JStr ''Hel''), MetadataEvent (JObj [(''session_id'', JStr ''s1'')]),
               ContentEvent (JStr ''lo'')], ReturnedAtDone)
             \<lparr>messages = [], sources = Map.empty, streamingContent = [], isStreaming = False\<rparr>))
     = [\<lparr>role = UserRole, content = ''Hi?'', timestamp = ''2025-01-01T10:00:00.000Z'', message_sources = None\<rparr>,
        \<lparr>role = AssistantRole, content = ''Hello'', timestamp = ''2025-01-01T10:00:02.000Z'',
          message_sources = None\<rparr>]"
proof -
  note flow = assistant_message_appended_after_stream_ended
    [of "\<lambda>v. []" "\<lparr>vars_message = ''Hi?'', vars_sessionId = None\<rparr>" "''2025-01-01T10:00:00.000Z''" "''2025-01-01T10:00:02.000Z''"
        "[ContentEvent (JStr ''Hel''), MetadataEvent (JObj [(''session_id'', JStr ''s1'')]),
          ContentEvent (JStr ''lo'')]" ReturnedAtDone
        "\<lparr>messages = [], sources = Map.empty, streamingContent = [], isStreaming = False\<rparr>"]
  have le: "(3::nat) \<le> length [ContentEvent (JStr ''Hel''),
      MetadataEvent (JObj [(''session_id'', JStr ''s1'')]), ContentEvent (JStr ''lo'')]"
    by simp
  from flow have during: "\<forall>i. i \<le> length [ContentEvent (JStr ''Hel''),
        MetadataEvent (JObj [(''session_id'', JStr ''s1'')]), ContentEvent (JStr ''lo'')] \<longrightarrow>
      messages (sendMessage (\<lambda>v. []) \<lparr>vars_message = ''Hi?'', vars_sessionId = None\<rparr>
             ''2025-01-01T10:00:00.000Z'' ''2025-01-01T10:00:02.000Z''
             ([ContentEvent (JStr ''Hel''), MetadataEvent (JObj [(''session_id'', JStr ''s1'')]),
               ContentEvent (JStr ''lo'')], ReturnedAtDone)
             \<lparr>messages = [], sources = Map.empty, streamingContent = [], isStreaming = False\<rparr>
           ! i) =
      messages \<lparr>messages = [], sources = Map.empty, streamingContent = [], isStreaming = False\<rparr>
        @ [userMessage \<lparr>vars_message = ''Hi?'', vars_sessionId = None\<rparr> ''2025-01-01T10:00:00.000Z'']"
    by blast
  from during le have third:
    "messages (sendMessage (\<lambda>v. []) \<lparr>vars_message = ''Hi?'', vars_sessionId = None\<rparr>
             ''2025-01-01T10:00:00.000Z'' ''2025-01-01T10:00:02.000Z''
             ([ContentEvent (JStr ''Hel''), MetadataEvent (JObj [(''session_id'', JStr ''s1'')]),
               ContentEvent (JStr ''lo'')], ReturnedAtDone)
             \<lparr>messages = [], sources = Map.empty, streamingContent = [], isStreaming = False\<rparr>
           ! 3) =
      messages \<lparr>messages = [], sources = Map.empty, streamingContent = [], isStreaming = False\<rparr>
        @ [userMessage \<lparr>vars_message = ''Hi?'', vars_sessionId = None\<rparr> ''2025-01-01T10:00:00.000Z'']"
    by blast
  from flow third show ?thesis
    by (simp add: userMessage_def streamed_reply_def streamed_text_def to_text_def)
qed

text \<open>
  C5 as stated fails: the assistant message does not wait for a terminal event. Here
  the body holds one content frame and ends; there is no \<^verbatim>\<open>[DONE]\<close> marker and no
  metadata frame. The generator leaves its loop at the end of the body, and
  \<^verbatim>\<open>onSuccess\<close> appends the text received so far as an ordinary assistant message.
\<close>

theorem assistant_message_without_terminal_event:
  \<open>snd (streamMessage JSON_parse
          (FetchResolved \<lparr>ok = True, status = 200, body = Some
             ([''data: {"type": "content", "data": "Hel"}'' @ [CHR 0x0A, CHR 0x0A]],
              EndOfBody)\<rparr>))
     = ReturnedAtEnd
   \<and> messages (last (sendMessage (\<lambda>v. []) \<lparr>vars_message = ''Hi?'', vars_sessionId = None\<rparr>
        ''2025-01-01T10:00:00.000Z'' ''2025-01-01T10:00:02.000Z''
        (streamMessage JSON_parse
          (FetchResolved \<lparr>ok = True, status = 200, body = Some
             ([''data: {"type": "content", "data": "Hel"}'' @ [CHR 0x0A, CHR 0x0A]],
              EndOfBody)\<rparr>))
        \<lparr>messages = [], sources = Map.empty, streamingContent = [], isStreaming = False\<rparr>))
     = [\<lparr>role = UserRole, content = ''Hi?'', timestamp = ''2025-01-01T10:00:00.000Z'', message_sources = None\<rparr>,
        \<lparr>role = AssistantRole, content = ''Hel'', timestamp = ''2025-01-01T10:00:02.000Z'',
          message_sources = None\<rparr>]\<close>
  by code_simp






section \<open>Properties of the session list\<close>

text \<open>
  C10. \<^verbatim>\<open>deleteSession\<close> takes the cached list as its snapshot and removes the session
  from the cache before the request is answered. When the request fails, the error is
  passed on, the cache holds the list it held before (it is the snapshot itself
  whenever a list had been cached; had none been cached, it is the empty list that the
  hook returned before), the list the hook returns is unchanged, and so is
  \<^verbatim>\<open>currentSessionId\<close>. When the request succeeds, the list is the old one without the
  deleted session, no session of that id is left in it, and \<^verbatim>\<open>currentSessionId\<close> is
  cleared if it was the deleted session and kept otherwise.
\<close>

theorem deleteSession_restores_on_error_removes_on_success:
  "fst (onMutate sessionId st) = cache st
   \<and> sessions (snd (onMutate sessionId st)) =
       filter (\<lambda>s. session_id s \<noteq> sessionId) (sessions st)
   \<and> (\<forall>err. request sessionId = Some err \<longrightarrow>
         fst (deleteSession request sessionId st) = Some err
         \<and> cache (snd (deleteSession request sessionId st)) = Some (sessions st)
         \<and> (cache st \<noteq> None \<longrightarrow>
              cache (snd (deleteSession request sessionId st)) = cache st)
         \<and> sessions (snd (deleteSession request sessionId st)) = sessions st
         \<and> currentSessionId (snd (deleteSession request sessionId st)) = currentSessionId st)
   \<and> (request sessionId = None \<longrightarrow>
         fst (deleteSession request sessionId st) = None
         \<and> sessions (snd (deleteSession request sessionId st)) =
             filter (\<lambda>s. session_id s \<noteq> sessionId) (sessions st)
         \<and> (\<forall>s \<in> set (sessions (snd (deleteSession request sessionId st))).
               session_id s \<noteq> sessionId)
         \<and> currentSessionId (snd (deleteSession request sessionId st)) =
             (if currentSessionId st = Some sessionId then None else currentSessionId st))"
  by (auto simp: deleteSession_def onMutate_def onDeleteError_def onSettled_def sessions_def
        Let_def split: option.splits)

theorem deleteSession_restores_on_error_removes_on_success_witness:
  "fst (deleteSession (\<lambda>sid. Some (HttpError 500)) ''s1''
      \<lparr>cache = Some
         [\<lparr>session_id = ''s1'', session_user_id = None, title = Some ''Fees'',
           session_created_at = ''d1'', updated_at = ''d2'', message_count = 2\<rparr>,
          \<lparr>session_id = ''s2'', session_user_id = None, title = None,
           session_created_at = ''d3'', updated_at = ''d4'', message_count = 4\<rparr>],
       invalidated = False, currentSessionId = Some ''s1''\<rparr>) = Some (HttpError 500)
   \<and> cache (snd (deleteSession (\<lambda>sid. Some (HttpError 500)) ''s1''
      \<lparr>cache = Some
         [\<lparr>session_id = ''s1'', session_user_id = None, title = Some ''Fees'',
           session_created_at = ''d1'', updated_at = ''d2'', message_count = 2\<rparr>,
          \<lparr>session_id = ''s2'', session_user_id = None, title = None,
           session_created_at = ''d3'', updated_at = ''d4'', message_count = 4\<rparr>],
       invalidated = False, currentSessionId = Some ''s1''\<rparr>)) =
     Some [\<lparr>session_id = ''s1'', session_user_id = None, title = Some ''Fees'',
             session_created_at = ''d1'', updated_at = ''d2'', message_count = 2\<rparr>,
           \<lparr>session_id = ''s2'', session_user_id = None, title = None,
             session_created_at = ''d3'', updated_at = ''d4'', message_count = 4\<rparr>]
   \<and> currentSessionId (snd (deleteSession (\<lambda>sid. Some (HttpError 500)) ''s1''
      \<lparr>cache = Some
         [\<lparr>session_id = ''s1'', session_user_id = None, title = Some ''Fees'',
           session_created_at = ''d1'', updated_at = ''d2'', message_count = 2\<rparr>,
          \<lparr>session_id = ''s2'', session_user_id = None, title = None,
           session_created_at = ''d3'', updated_at = ''d4'', message_count = 4\<rparr>],
       invalidated = False, currentSessionId = Some ''s1''\<rparr>)) = Some ''s1''
   \<and> fst (deleteSession (\<lambda>sid. None) ''s1''
      \<lparr>cache = Some
         [\<lparr>session_id = ''s1'', session_user_id = None, title = Some ''Fees'',
           session_created_at = ''d1'', updated_at = ''d2'', message_count = 2\<rparr>,
          \<lparr>session_id = ''s2'', session_user_id = None, title = None,
           session_created_at = ''d3'', updated_at = ''d4'', message_count = 4\<rparr>],
       invalidated = False, currentSessionId = Some ''s1''\<rparr>) = None
   \<and> sessions (snd (deleteSession (\<lambda>sid. None) ''s1''
      \<lparr>cache = Some
         [\<lparr>session_id = ''s1'', session_user_id = None, title = Some ''Fees'',
           session_created_at = ''d1'', updated_at = ''d2'', message_count = 2\<rparr>,
          \<lparr>session_id = ''s2'', session_user_id = None, title = None,
           session_created_at = ''d3'', updated_at = ''d4'', message_count = 4\<rparr>],
       invalidated = False, currentSessionId = Some ''s1''\<rparr>)) =
     [\<lparr>session_id = ''s2'', session_user_id = None, title = None,
       session_created_at = ''d3'', updated_at = ''d4'', message_count = 4\<rparr>]
   \<and> currentSessionId (snd (deleteSession (\<lambda>sid. None) ''s1''
      \<lparr>cache = Some
         [\<lparr>session_id = ''s1'', session_user_id = None, title = Some ''Fees'',
           session_created_at = ''d1'', updated_at = ''d2'', message_count = 2\<rparr>,
          \<lparr>session_id = ''s2'', session_user_id = None, title = None,
           session_created_at = ''d3'', updated_at = ''d4'', message_count = 4\<rparr>],
       invalidated = False, currentSessionId = Some ''s1''\<rparr>)) = None"
proof -
  let ?st = "\<lparr>cache = Some
         [\<lparr>session_id = ''s1'', session_user_id = None, title = Some ''Fees'',
           session_created_at = ''d1'', updated_at = ''d2'', message_count = 2\<rparr>,
          \<lparr>session_id = ''s2'', session_user_id = None, title = None,
           session_created_at = ''d3'', updated_at = ''d4'', message_count = 4\<rparr>],
       invalidated = False, currentSessionId = Some ''s1''\<rparr>"
  note failed = deleteSession_restores_on_error_removes_on_success
    [of "''s1''" ?st "\<lambda>sid. Some (HttpError 500)"]
  note succeeded = deleteSession_restores_on_error_removes_on_success
    [of "''s1''" ?st "\<lambda>sid. None"]
  have cached: "cache ?st \<noteq> None"
    by simp
  from failed cached have
    f1: "fst (deleteSession (\<lambda>sid. Some (HttpError 500)) ''s1'' ?st) = Some (HttpError 500)"
    and f2: "cache (snd (deleteSession (\<lambda>sid. Some (HttpError 500)) ''s1'' ?st)) = cache ?st"
    and f3: "currentSessionId (snd (deleteSession (\<lambda>sid. Some (HttpError 500)) ''s1'' ?st)) =
             currentSessionId ?st"
    by blast+
  from succeeded have
    s1: "fst (deleteSession (\<lambda>sid. None) ''s1'' ?st) = None"
    and s2: "sessions (snd (deleteSession (\<lambda>sid. None) ''s1'' ?st)) =
             filter (\<lambda>s. session_id s \<noteq> ''s1'') (sessions ?st)"
    and s3: "currentSessionId (snd (deleteSession (\<lambda>sid. None) ''s1'' ?st)) =
             (if currentSessionId ?st = Some ''s1'' then None else currentSessionId ?st)"
    by blast+
  have left: "filter (\<lambda>s. session_id s \<noteq> ''s1'') (sessions ?st) =
     [\<lparr>session_id = ''s2'', session_user_id = None, title = None,
       session_created_at = ''d3'', updated_at = ''d4'', message_count = 4\<rparr>]"
    by (simp add: sessions_def)
  have cur: "currentSessionId ?st = Some ''s1''" and c: "cache ?st =
     Some [\<lparr>session_id = ''s1'', session_user_id = None, title = Some ''Fees'',
             session_created_at = ''d1'', updated_at = ''d2'', message_count = 2\<rparr>,
           \<lparr>session_id = ''s2'', session_user_id = None, title = None,
             session_created_at = ''d3'', updated_at = ''d4'', message_count = 4\<rparr>]"
    by simp_all
  show ?thesis
    by (simp only: f1 f2 f3 s1 s2 s3 left cur c if_True simp_thms)
qed

end
